theory Spec2Isabelle
  imports Complex_Main "HOL-Library.Char_ord" "HOL-Library.List_Lexorder" "HOL-Library.AList"
begin

section \<open>Data model of \<open>metafeatures/dataset_describe.py\<close>\<close>

text \<open>
  The class \<open>Dataset\<close> wraps a pandas DataFrame.  A frame is modelled as its row count
  (\<open>df.shape[0]\<close>) and its ordered list of named columns; a cell is one of the two
  missing values that pandas keeps apart (\<open>NA\<close> is the float not-a-number, \<open>PyNone\<close> is
  Python's \<open>None\<close>), a number or a string.  A column carries its dtype:
  \<open>_get_numeric_data\<close> selects columns by dtype, not by inspecting the values.  Floating
  point numbers are idealised as reals extended by the not-a-number value.
\<close>

datatype error = ValueError | KeyError | IndexError | AttributeError | TypeError

datatype cell = NA | PyNone | Num real | Str string

datatype dtype = Numeric | Object

record column =
  col_name :: string
  col_dtype :: dtype
  col_cells :: "cell list"

record frame =
  frame_rows :: nat
  frame_cols :: "column list"

datatype float = NaN | Fin real

datatype scalar = IntVal int | FloatVal float

text \<open>Every column holds one cell per row, and labels select one column.\<close>

definition wf_frame :: "frame \<Rightarrow> bool" where
  "wf_frame f \<longleftrightarrow>
     list_all (\<lambda>c. length (col_cells c) = frame_rows f) (frame_cols f)
     \<and> distinct (map col_name (frame_cols f))"

text \<open>\<open>df.columns.tolist()\<close>\<close>

definition columns_tolist :: "frame \<Rightarrow> string list" where
  "columns_tolist f = map col_name (frame_cols f)"

text \<open>\<open>df._get_numeric_data()\<close>: the sub-frame of the columns of numeric dtype.\<close>

definition get_numeric_data :: "frame \<Rightarrow> frame" where
  "get_numeric_data f =
     f\<lparr>frame_cols := filter (\<lambda>c. col_dtype c = Numeric) (frame_cols f)\<rparr>"

text \<open>
  \<open>df[label]\<close> followed by a Series method.  An absent label raises KeyError; a label
  carried by several columns selects a DataFrame, on which the Series method that the
  source calls next (\<open>unique\<close>, \<open>value_counts\<close>) does not exist.
\<close>

definition getcol :: "frame \<Rightarrow> string \<Rightarrow> error + column" where
  "getcol f label =
     (case filter (\<lambda>c. col_name c = label) (frame_cols f) of
        [] \<Rightarrow> Inl KeyError
      | [c] \<Rightarrow> Inr c
      | _ \<Rightarrow> Inl AttributeError)"

text \<open>\<open>Series.unique()\<close>: the distinct values in order of first appearance; not-a-number
  and \<open>None\<close> are two values among the others.\<close>

definition unique :: "cell list \<Rightarrow> cell list" where
  "unique xs = rev (remdups (rev xs))"

text \<open>\<open>pd.isna\<close>\<close>

fun isna :: "cell \<Rightarrow> bool" where
  "isna NA = True"
| "isna PyNone = True"
| "isna (Num r) = False"
| "isna (Str s) = False"

text \<open>\<open>Series.dropna()\<close>\<close>

definition dropna :: "cell list \<Rightarrow> cell list" where
  "dropna xs = filter (\<lambda>x. \<not> isna x) xs"

text \<open>
  The order in which the encoders arrange the distinct non-missing values of a column:
  numbers by value, strings by code point, numbers before strings.  (A missing value
  comes after them; the encoders sort non-missing values only.)
\<close>

fun cell_le :: "cell \<Rightarrow> cell \<Rightarrow> bool" where
  "cell_le (Num a) (Num b) = (a \<le> b)"
| "cell_le (Num a) (Str t) = True"
| "cell_le (Str s) (Num b) = False"
| "cell_le (Str s) (Str t) = (s \<le> t)"
| "cell_le (Num a) y = True"
| "cell_le (Str s) y = True"
| "cell_le PyNone (Num b) = False"
| "cell_le PyNone (Str t) = False"
| "cell_le PyNone y = True"
| "cell_le NA NA = True"
| "cell_le NA y = False"

fun insort_cell :: "cell \<Rightarrow> cell list \<Rightarrow> cell list" where
  "insort_cell x [] = [x]"
| "insort_cell x (y # ys) = (if cell_le x y then x # y # ys else y # insort_cell x ys)"

definition sort_cells :: "cell list \<Rightarrow> cell list" where
  "sort_cells xs = foldr insort_cell xs []"

fun index_of :: "cell list \<Rightarrow> cell \<Rightarrow> nat" where
  "index_of [] x = 0"
| "index_of (y # ys) x = (if x = y then 0 else Suc (index_of ys x))"

section \<open>The descriptor and its construction\<close>

text \<open>
  The instance attributes of \<open>Dataset\<close>.  \<open>corr_with_dependent\<close> and
  \<open>class_probablities\<close> start as the class-level \<open>None\<close> and become instance
  attributes on their first assignment through \<open>self\<close>.  The class attribute
  \<open>symbol_counts_dict = {}\<close> is never assigned through \<open>self\<close>, only updated in place,
  so it is not a field here: it is one dictionary owned by the class and passed
  explicitly to the functions that read or update it.
\<close>

record dataset =
  df :: frame
  df_encoded :: frame
  categorical_cols :: "string list"
  dependent_col :: string
  prediction_type :: string
  independent_col :: "string list"
  corr_with_dependent :: "(string \<times> float) list option"
  class_probablities :: "(cell \<times> float) list option"

type_synonym symbol_counts = "(string \<times> nat) list"

text \<open>\<open>_set_dependent_col\<close>\<close>

definition set_dependent_col :: "frame \<Rightarrow> string option \<Rightarrow> error + string" where
  "set_dependent_col f dcol =
     (case dcol of
        None \<Rightarrow> (if columns_tolist f = [] then Inl IndexError
                  else Inr (last (columns_tolist f)))
      | Some d \<Rightarrow> (if d \<in> set (columns_tolist f) then Inr d else Inl ValueError))"

text \<open>\<open>_set_prediction_type\<close>\<close>

definition set_prediction_type :: "frame \<Rightarrow> string \<Rightarrow> string option \<Rightarrow> string" where
  "set_prediction_type f dep ptype =
     (case ptype of
        None \<Rightarrow> (if dep \<in> set (columns_tolist (get_numeric_data f))
                  then ''regression'' else ''classification'')
      | Some p \<Rightarrow> p)"

text \<open>
  \<open>_set_categorical_columns\<close>.  Python leaves the order of \<open>list(set(...))\<close> open; the
  model lists the names in column order.
\<close>

definition set_categorical_columns :: "frame \<Rightarrow> string \<Rightarrow> string list option \<Rightarrow> string list" where
  "set_categorical_columns f dep cats =
     (case cats of
        None \<Rightarrow> filter (\<lambda>n. n \<notin> set (columns_tolist (get_numeric_data f)) \<and> n \<notin> set [dep])
                  (remdups (columns_tolist f))
      | Some cs \<Rightarrow> cs)"

text \<open>
  \<open>set(self.dependent_col)\<close>: the set built from a string is the set of its characters,
  each a string of length one.
\<close>

definition set_of_str :: "string \<Rightarrow> string list" where
  "set_of_str s = map (\<lambda>ch. [ch]) s"

text \<open>\<open>list(set(self.df.columns.tolist()) - set(self.dependent_col))\<close>, in column order.\<close>

definition compute_independent_col :: "frame \<Rightarrow> string \<Rightarrow> string list" where
  "compute_independent_col f dep =
     filter (\<lambda>n. n \<notin> set (set_of_str dep)) (remdups (columns_tolist f))"

section \<open>Categorical encoding\<close>

text \<open>
  \<open>LabelEncoder().fit_transform\<close>.  The classes are the sorted distinct non-missing
  values, followed by \<open>None\<close> and by not-a-number when they occur; each value is replaced
  by the position of its class.  Sorting compares the values with each other, and
  comparing a string with a number raises TypeError.
\<close>

fun is_str :: "cell \<Rightarrow> bool" where
  "is_str (Str s) = True"
| "is_str x = False"

fun is_num :: "cell \<Rightarrow> bool" where
  "is_num (Num r) = True"
| "is_num x = False"

definition mixed_types :: "cell list \<Rightarrow> bool" where
  "mixed_types xs \<longleftrightarrow> list_ex is_str xs \<and> list_ex is_num xs"

definition label_classes :: "cell list \<Rightarrow> cell list" where
  "label_classes xs =
     sort_cells (unique (dropna xs))
     @ (if PyNone \<in> set xs then [PyNone] else [])
     @ (if NA \<in> set xs then [NA] else [])"

definition label_codes :: "cell list \<Rightarrow> cell list" where
  "label_codes xs = map (\<lambda>x. Num (real (index_of (label_classes xs) x))) xs"

definition label_encode :: "cell list \<Rightarrow> error + cell list" where
  "label_encode xs = (if mixed_types xs then Inl TypeError else Inr (label_codes xs))"

text \<open>\<open>str\<close> of a category; the rendering of a number is a parameter.\<close>

fun str_of_cell :: "(real \<Rightarrow> string) \<Rightarrow> cell \<Rightarrow> string" where
  "str_of_cell str_num (Str s) = s"
| "str_of_cell str_num (Num r) = str_num r"
| "str_of_cell str_num NA = ''nan''"
| "str_of_cell str_num PyNone = ''None''"

text \<open>
  \<open>pd.get_dummies(frame, columns=[label])\<close> for a label that selects one column \<open>c\<close>:
  the other columns are kept in order, and one 0/1 indicator column per sorted distinct
  non-missing value is appended, named \<open>label_value\<close>.
\<close>

definition dummy_column :: "(real \<Rightarrow> string) \<Rightarrow> column \<Rightarrow> cell \<Rightarrow> column" where
  "dummy_column str_num c v =
     \<lparr>col_name = col_name c @ ''_'' @ str_of_cell str_num v,
      col_dtype = Numeric,
      col_cells = map (\<lambda>x. if x = v then Num 1 else Num 0) (col_cells c)\<rparr>"

definition dummies :: "(real \<Rightarrow> string) \<Rightarrow> column \<Rightarrow> column list" where
  "dummies str_num c = map (dummy_column str_num c) (sort_cells (unique (dropna (col_cells c))))"

definition get_dummies :: "(real \<Rightarrow> string) \<Rightarrow> frame \<Rightarrow> column \<Rightarrow> frame" where
  "get_dummies str_num f c =
     f\<lparr>frame_cols :=
         filter (\<lambda>x. col_name x \<noteq> col_name c) (frame_cols f) @ dummies str_num c\<rparr>"

text \<open>\<open>frame[label] = values\<close> for a label that selects one column.\<close>

definition setcol :: "frame \<Rightarrow> string \<Rightarrow> cell list \<Rightarrow> frame" where
  "setcol f label vs =
     f\<lparr>frame_cols :=
         map (\<lambda>x. if col_name x = label then x\<lparr>col_dtype := Numeric, col_cells := vs\<rparr> else x)
           (frame_cols f)\<rparr>"

text \<open>The body of the loop of \<open>_categorical_column_encoder\<close>.\<close>

definition encode_column :: "(real \<Rightarrow> string) \<Rightarrow> frame \<Rightarrow> string \<Rightarrow> error + frame" where
  "encode_column str_num f label =
     (case getcol f label of
        Inl e \<Rightarrow> Inl e
      | Inr c \<Rightarrow>
          (if length (unique (col_cells c)) \<le> 2
           then (case label_encode (col_cells c) of
                   Inl e \<Rightarrow> Inl e
                 | Inr codes \<Rightarrow> Inr (setcol f label codes))
           else Inr (get_dummies str_num f c)))"

text \<open>\<open>_categorical_column_encoder\<close>: the loop over \<open>categorical_cols\<close>, on a copy.\<close>

fun categorical_column_encoder ::
  "(real \<Rightarrow> string) \<Rightarrow> frame \<Rightarrow> string list \<Rightarrow> error + frame" where
  "categorical_column_encoder str_num f [] = Inr f"
| "categorical_column_encoder str_num f (label # rest) =
     (case encode_column str_num f label of
        Inl e \<Rightarrow> Inl e
      | Inr f' \<Rightarrow> categorical_column_encoder str_num f' rest)"

text \<open>\<open>__init__(self, df, prediction_type, dependent_col, categorical_cols)\<close>\<close>

definition init ::
  "(real \<Rightarrow> string) \<Rightarrow> frame \<Rightarrow> string option \<Rightarrow> string option \<Rightarrow> string list option
     \<Rightarrow> error + dataset" where
  "init str_num f ptype dcol cats =
     (case set_dependent_col f dcol of
        Inl e \<Rightarrow> Inl e
      | Inr dep \<Rightarrow>
          (let cc = set_categorical_columns f dep cats;
               pt = set_prediction_type f dep ptype;
               ic = compute_independent_col f dep
           in case categorical_column_encoder str_num f cc of
                Inl e \<Rightarrow> Inl e
              | Inr enc \<Rightarrow>
                  Inr \<lparr>df = f, df_encoded = enc, categorical_cols = cc,
                       dependent_col = dep, prediction_type = pt,
                       independent_col = ic,
                       corr_with_dependent = None, class_probablities = None\<rparr>))"

section \<open>Reductions of pandas and numpy\<close>

text \<open>
  The reductions skip not-a-number entries (\<open>skipna\<close>, \<open>nanmean\<close>, \<open>nanpercentile\<close>)
  and give not-a-number when nothing is left to reduce.
\<close>

definition finite_values :: "float list \<Rightarrow> real list" where
  "finite_values vs = concat (map (\<lambda>v. case v of NaN \<Rightarrow> [] | Fin r \<Rightarrow> [r]) vs)"

definition stat_max :: "real list \<Rightarrow> float" where
  "stat_max xs = (case xs of [] \<Rightarrow> NaN | x # rest \<Rightarrow> Fin (fold max rest x))"

definition stat_min :: "real list \<Rightarrow> float" where
  "stat_min xs = (case xs of [] \<Rightarrow> NaN | x # rest \<Rightarrow> Fin (fold min rest x))"

definition stat_mean :: "real list \<Rightarrow> float" where
  "stat_mean xs = (if xs = [] then NaN else Fin (sum_list xs / real (length xs)))"

definition stat_median :: "real list \<Rightarrow> float" where
  "stat_median xs =
     (if xs = [] then NaN
      else let s = sort xs; n = length s
           in if odd n then Fin (s ! (n div 2))
              else Fin ((s ! (n div 2 - 1) + s ! (n div 2)) / 2))"

text \<open>Sample standard deviation, \<open>ddof = 1\<close>.\<close>

definition stat_std :: "real list \<Rightarrow> float" where
  "stat_std xs =
     (if length xs < 2 then NaN
      else let m = sum_list xs / real (length xs)
           in Fin (sqrt (sum_list (map (\<lambda>x. (x - m)\<^sup>2) xs) / real (length xs - 1))))"

text \<open>Percentile with linear interpolation between the two nearest ranks.\<close>

definition stat_percentile :: "real \<Rightarrow> real list \<Rightarrow> float" where
  "stat_percentile q xs =
     (if xs = [] then NaN
      else let s = sort xs;
               pos = real (length s - 1) * q / 100;
               lo = nat \<lfloor>pos\<rfloor>;
               hi = nat \<lceil>pos\<rceil>
           in Fin (s ! lo + (s ! hi - s ! lo) * (pos - real lo)))"

text \<open>\<open>Series.abs()\<close>\<close>

definition float_abs :: "float \<Rightarrow> float" where
  "float_abs v = (case v of NaN \<Rightarrow> NaN | Fin r \<Rightarrow> Fin \<bar>r\<bar>)"

definition series_abs :: "('k \<times> float) list \<Rightarrow> ('k \<times> float) list" where
  "series_abs s = map (\<lambda>(k, v). (k, float_abs v)) s"

definition series_values :: "('k \<times> float) list \<Rightarrow> real list" where
  "series_values s = finite_values (map snd s)"

text \<open>
  Pearson's coefficient of two columns over the rows where both hold a number; it is
  not-a-number when no such row exists or when one of the columns is constant there.
\<close>

definition paired :: "cell list \<Rightarrow> cell list \<Rightarrow> (real \<times> real) list" where
  "paired xs ys =
     concat (map (\<lambda>(x, y). case x of Num a \<Rightarrow> (case y of Num b \<Rightarrow> [(a, b)] | _ \<Rightarrow> []) | _ \<Rightarrow> [])
       (zip xs ys))"

definition pearson :: "cell list \<Rightarrow> cell list \<Rightarrow> float" where
  "pearson xs ys =
     (let ps = paired xs ys; n = real (length ps)
      in if ps = [] then NaN
         else let mx = sum_list (map fst ps) / n;
                  my = sum_list (map snd ps) / n;
                  sxy = sum_list (map (\<lambda>(x, y). (x - mx) * (y - my)) ps);
                  sxx = sum_list (map (\<lambda>(x, y). (x - mx)\<^sup>2) ps);
                  syy = sum_list (map (\<lambda>(x, y). (y - my)\<^sup>2) ps)
              in if sxx = 0 \<or> syy = 0 then NaN else Fin (sxy / sqrt (sxx * syy)))"

text \<open>\<open>frame.corr()[label]\<close>: the correlation matrix ranges over the numeric columns.\<close>

definition corr_column :: "frame \<Rightarrow> string \<Rightarrow> error + (string \<times> float) list" where
  "corr_column f label =
     (case getcol (get_numeric_data f) label of
        Inl e \<Rightarrow> Inl e
      | Inr c \<Rightarrow>
          Inr (map (\<lambda>x. (col_name x, pearson (col_cells x) (col_cells c)))
                 (frame_cols (get_numeric_data f))))"

text \<open>\<open>Series.value_counts()\<close>: missing values are dropped, most frequent value first.\<close>

definition value_counts :: "cell list \<Rightarrow> (cell \<times> nat) list" where
  "value_counts xs =
     sort_key (\<lambda>p. - int (snd p)) (map (\<lambda>v. (v, count_list xs v)) (unique (dropna xs)))"

section \<open>Accessors\<close>

definition n_rows :: "dataset \<Rightarrow> nat" where
  "n_rows d = frame_rows (df d)"

definition n_columns :: "dataset \<Rightarrow> nat" where
  "n_columns d = length (frame_cols (df d))"

definition n_categorical :: "dataset \<Rightarrow> nat" where
  "n_categorical d = length (categorical_cols d)"

definition n_classes :: "dataset \<Rightarrow> error + scalar" where
  "n_classes d =
     (if prediction_type d = ''classification''
      then (case getcol (df d) (dependent_col d) of
              Inl e \<Rightarrow> Inl e
            | Inr c \<Rightarrow> Inr (IntVal (int (length (unique (col_cells c))))))
      else Inr (FloatVal NaN))"

subsection \<open>Correlation with the dependent column\<close>

text \<open>
  The test \<open>if self.corr_with_dependent != None\<close>.  Comparing \<open>None\<close> with \<open>None\<close> gives
  \<open>False\<close>; comparing a Series with \<open>None\<close> compares element by element and gives a
  Series of booleans, and the truth value of a Series raises ValueError.
\<close>

datatype truth = PyBool bool | BoolSeries "bool list"

definition ne_None :: "(string \<times> float) list option \<Rightarrow> truth" where
  "ne_None v = (case v of None \<Rightarrow> PyBool False | Some s \<Rightarrow> BoolSeries (map (\<lambda>_. True) s))"

definition truth_value :: "truth \<Rightarrow> error + bool" where
  "truth_value t = (case t of PyBool b \<Rightarrow> Inr b | BoolSeries _ \<Rightarrow> Inl ValueError)"

text \<open>
  \<open>_get_corr_with_dependent\<close>.  The result is \<open>None\<close> when the prediction type is not
  \<open>'regression'\<close>: the function falls off its end.
\<close>

definition get_corr_with_dependent ::
  "dataset \<Rightarrow> error + ((string \<times> float) list option \<times> dataset)" where
  "get_corr_with_dependent d =
     (if prediction_type d = ''regression''
      then (case truth_value (ne_None (corr_with_dependent d)) of
              Inl e \<Rightarrow> Inl e
            | Inr True \<Rightarrow> Inr (corr_with_dependent d, d)
            | Inr False \<Rightarrow>
                (case corr_column (df_encoded d) (dependent_col d) of
                   Inl e \<Rightarrow> Inl e
                 | Inr s \<Rightarrow>
                     (let s' = filter (\<lambda>p. fst p \<noteq> dependent_col d) s
                      in Inr (Some s', d\<lparr>corr_with_dependent := Some s'\<rparr>))))
      else Inr (None, d))"

text \<open>
  The seven accessors differ in their last reduction only.  Calling \<open>.abs()\<close> on \<open>None\<close>
  raises AttributeError.
\<close>

definition corr_accessor :: "(real list \<Rightarrow> float) \<Rightarrow> dataset \<Rightarrow> error + (scalar \<times> dataset)" where
  "corr_accessor reduce d =
     (if prediction_type d = ''classification'' then Inr (FloatVal NaN, d)
      else (case get_corr_with_dependent d of
              Inl e \<Rightarrow> Inl e
            | Inr (None, d') \<Rightarrow> Inl AttributeError
            | Inr (Some s, d') \<Rightarrow> Inr (FloatVal (reduce (series_values (series_abs s))), d')))"

definition corr_with_dependent_abs_max :: "dataset \<Rightarrow> error + (scalar \<times> dataset)" where
  "corr_with_dependent_abs_max = corr_accessor stat_max"

definition corr_with_dependent_abs_min :: "dataset \<Rightarrow> error + (scalar \<times> dataset)" where
  "corr_with_dependent_abs_min = corr_accessor stat_min"

definition corr_with_dependent_abs_mean :: "dataset \<Rightarrow> error + (scalar \<times> dataset)" where
  "corr_with_dependent_abs_mean = corr_accessor stat_mean"

definition corr_with_dependent_abs_median :: "dataset \<Rightarrow> error + (scalar \<times> dataset)" where
  "corr_with_dependent_abs_median = corr_accessor stat_median"

definition corr_with_dependent_abs_std :: "dataset \<Rightarrow> error + (scalar \<times> dataset)" where
  "corr_with_dependent_abs_std = corr_accessor stat_std"

definition corr_with_dependent_abs_25p :: "dataset \<Rightarrow> error + (scalar \<times> dataset)" where
  "corr_with_dependent_abs_25p = corr_accessor (stat_percentile 25)"

definition corr_with_dependent_abs_75p :: "dataset \<Rightarrow> error + (scalar \<times> dataset)" where
  "corr_with_dependent_abs_75p = corr_accessor (stat_percentile 75)"

subsection \<open>Class probabilities\<close>

text \<open>\<open>class_counts / self.n_rows()\<close> is a true division, element by element.\<close>

definition class_frequencies :: "frame \<Rightarrow> column \<Rightarrow> (cell \<times> float) list" where
  "class_frequencies f c =
     map (\<lambda>(v, k). (v, Fin (real k / real (frame_rows f)))) (value_counts (col_cells c))"

text \<open>\<open>_get_class_probablity\<close>; the cache is tested with \<open>is None\<close>.\<close>

definition get_class_probablity :: "dataset \<Rightarrow> error + ((cell \<times> float) list \<times> dataset)" where
  "get_class_probablity d =
     (case class_probablities d of
        None \<Rightarrow>
          (case getcol (df d) (dependent_col d) of
             Inl e \<Rightarrow> Inl e
           | Inr c \<Rightarrow>
               (let probs = class_frequencies (df d) c
                in Inr (probs, d\<lparr>class_probablities := Some probs\<rparr>)))
      | Some probs \<Rightarrow> Inr (probs, d))"

definition class_prob_accessor :: "(real list \<Rightarrow> float) \<Rightarrow> dataset \<Rightarrow> error + (scalar \<times> dataset)" where
  "class_prob_accessor reduce d =
     (if prediction_type d = ''regression'' then Inr (FloatVal NaN, d)
      else (case get_class_probablity d of
              Inl e \<Rightarrow> Inl e
            | Inr (probs, d') \<Rightarrow> Inr (FloatVal (reduce (series_values probs)), d')))"

definition class_prob_min :: "dataset \<Rightarrow> error + (scalar \<times> dataset)" where
  "class_prob_min = class_prob_accessor stat_min"

definition class_prob_max :: "dataset \<Rightarrow> error + (scalar \<times> dataset)" where
  "class_prob_max = class_prob_accessor stat_max"

definition class_prob_std :: "dataset \<Rightarrow> error + (scalar \<times> dataset)" where
  "class_prob_std = class_prob_accessor stat_std"

definition class_prob_mean :: "dataset \<Rightarrow> error + (scalar \<times> dataset)" where
  "class_prob_mean = class_prob_accessor stat_mean"

definition class_prob_median :: "dataset \<Rightarrow> error + (scalar \<times> dataset)" where
  "class_prob_median = class_prob_accessor stat_median"

subsection \<open>Symbols per categorical column\<close>

text \<open>
  The loop of \<open>_get_symbols_per_category\<close>.  It writes into the dictionary of the class
  entry by entry, so the entries written before a failing lookup stay written.
\<close>

fun fill_symbol_counts ::
  "frame \<Rightarrow> string list \<Rightarrow> symbol_counts \<Rightarrow> error option \<times> symbol_counts" where
  "fill_symbol_counts f [] S = (None, S)"
| "fill_symbol_counts f (label # rest) S =
     (case getcol f label of
        Inl e \<Rightarrow> (Some e, S)
      | Inr c \<Rightarrow>
          fill_symbol_counts f rest
            (AList.update label (length (unique (dropna (col_cells c)))) S))"

text \<open>
  \<open>_get_symbols_per_category\<close>, given the dictionary of the class; it returns that
  dictionary, and the second component is the dictionary of the class afterwards.
\<close>

definition get_symbols_per_category ::
  "symbol_counts \<Rightarrow> dataset \<Rightarrow> (error + symbol_counts) \<times> symbol_counts" where
  "get_symbols_per_category S d =
     (if S = []
      then (case fill_symbol_counts (df d) (categorical_cols d) S of
              (None, S') \<Rightarrow> (Inr S', S')
            | (Some e, S') \<Rightarrow> (Inl e, S'))
      else (Inr S, S))"

text \<open>
  The five accessors differ in their reduction of \<open>symbol_counts_dict.values()\<close>, the
  list of the stored counts.
\<close>

definition symbols_accessor ::
  "(nat list \<Rightarrow> scalar) \<Rightarrow> symbol_counts \<Rightarrow> dataset \<Rightarrow> (error + scalar) \<times> symbol_counts" where
  "symbols_accessor reduce S d =
     (case get_symbols_per_category S d of
        (Inl e, S') \<Rightarrow> (Inl e, S')
      | (Inr counts, S') \<Rightarrow>
          (if counts = [] then (Inr (FloatVal NaN), S')
           else (Inr (reduce (map snd counts)), S')))"

definition symbols_mean :: "symbol_counts \<Rightarrow> dataset \<Rightarrow> (error + scalar) \<times> symbol_counts" where
  "symbols_mean = symbols_accessor (\<lambda>ns. FloatVal (stat_mean (map real ns)))"

definition symbols_std :: "symbol_counts \<Rightarrow> dataset \<Rightarrow> (error + scalar) \<times> symbol_counts" where
  "symbols_std = symbols_accessor (\<lambda>ns. FloatVal (stat_std (map real ns)))"

definition symbols_min :: "symbol_counts \<Rightarrow> dataset \<Rightarrow> (error + scalar) \<times> symbol_counts" where
  "symbols_min = symbols_accessor (\<lambda>ns. IntVal (int (fold min (tl ns) (hd ns))))"

definition symbols_max :: "symbol_counts \<Rightarrow> dataset \<Rightarrow> (error + scalar) \<times> symbol_counts" where
  "symbols_max = symbols_accessor (\<lambda>ns. IntVal (int (fold max (tl ns) (hd ns))))"

definition symbols_sum :: "symbol_counts \<Rightarrow> dataset \<Rightarrow> (error + scalar) \<times> symbol_counts" where
  "symbols_sum = symbols_accessor (\<lambda>ns. IntVal (int (sum_list ns)))"

section \<open>Example datasets\<close>

text \<open>
  The dataset of the specification's worked example: a nominal column with three
  symbols and a label column of strings.
\<close>

definition color_frame :: frame where
  "color_frame =
     \<lparr>frame_rows = 4,
      frame_cols =
        [\<lparr>col_name = ''color'', col_dtype = Object,
          col_cells = [Str ''red'', Str ''blue'', Str ''red'', Str ''green'']\<rparr>,
         \<lparr>col_name = ''y'', col_dtype = Object,
          col_cells = [Str ''yes'', Str ''no'', Str ''yes'', Str ''no'']\<rparr>]\<rparr>"

text \<open>Three numeric columns, the last one named \<open>target\<close>.\<close>

definition target_frame :: frame where
  "target_frame =
     \<lparr>frame_rows = 2,
      frame_cols =
        [\<lparr>col_name = ''a'', col_dtype = Numeric, col_cells = [Num 1, Num 2]\<rparr>,
         \<lparr>col_name = ''b'', col_dtype = Numeric, col_cells = [Num 3, Num 5]\<rparr>,
         \<lparr>col_name = ''target'', col_dtype = Numeric, col_cells = [Num 0, Num 1]\<rparr>]\<rparr>"

text \<open>A nominal column with two symbols and a missing value.\<close>

definition gap_frame :: frame where
  "gap_frame =
     \<lparr>frame_rows = 3,
      frame_cols =
        [\<lparr>col_name = ''size'', col_dtype = Object, col_cells = [Str ''S'', Str ''M'', NA]\<rparr>,
         \<lparr>col_name = ''y'', col_dtype = Numeric, col_cells = [Num 1, Num 2, Num 4]\<rparr>]\<rparr>"

text \<open>A label column with a missing value.\<close>

definition partly_labelled_frame :: frame where
  "partly_labelled_frame =
     \<lparr>frame_rows = 2,
      frame_cols =
        [\<lparr>col_name = ''x'', col_dtype = Numeric, col_cells = [Num 1, Num 2]\<rparr>,
         \<lparr>col_name = ''y'', col_dtype = Object, col_cells = [Str ''yes'', NA]\<rparr>]\<rparr>"

text \<open>
  A binary column, a column with one symbol and both kinds of missing value, and a
  numeric target.
\<close>

definition survey_frame :: frame where
  "survey_frame =
     \<lparr>frame_rows = 3,
      frame_cols =
        [\<lparr>col_name = ''sex'', col_dtype = Object, col_cells = [Str ''F'', Str ''M'', Str ''F'']\<rparr>,
         \<lparr>col_name = ''note'', col_dtype = Object, col_cells = [Str ''a'', NA, PyNone]\<rparr>,
         \<lparr>col_name = ''y'', col_dtype = Numeric, col_cells = [Num 1, Num 2, Num 4]\<rparr>]\<rparr>"

text \<open>A target of dtype object that holds numbers.\<close>

definition coded_frame :: frame where
  "coded_frame =
     \<lparr>frame_rows = 2,
      frame_cols =
        [\<lparr>col_name = ''x'', col_dtype = Numeric, col_cells = [Num 1, Num 2]\<rparr>,
         \<lparr>col_name = ''y'', col_dtype = Object, col_cells = [Num 0, Num 1]\<rparr>]\<rparr>"

text \<open>A target with a single class.\<close>

definition single_class_frame :: frame where
  "single_class_frame =
     \<lparr>frame_rows = 2,
      frame_cols =
        [\<lparr>col_name = ''x'', col_dtype = Numeric, col_cells = [Num 1, Num 2]\<rparr>,
         \<lparr>col_name = ''y'', col_dtype = Object, col_cells = [Str ''yes'', Str ''yes'']\<rparr>]\<rparr>"

section \<open>Construction\<close>

lemmas init_defs = init_def set_dependent_col_def set_categorical_columns_def
  set_prediction_type_def compute_independent_col_def columns_tolist_def get_numeric_data_def
  set_of_str_def encode_column_def getcol_def unique_def dropna_def get_dummies_def
  dummy_column_def dummies_def setcol_def label_encode_def label_codes_def label_classes_def
  mixed_types_def sort_cells_def Let_def

lemma init_dependent_col:
  "init str_num f ptype dcol cats = Inr d \<Longrightarrow> set_dependent_col f dcol = Inr (dependent_col d)"
  by (auto simp: init_def Let_def split: sum.splits)

lemma init_df: "init str_num f ptype dcol cats = Inr d \<Longrightarrow> df d = f"
  by (auto simp: init_def Let_def split: sum.splits)

lemma init_prediction_type:
  "init str_num f ptype dcol cats = Inr d \<Longrightarrow>
     prediction_type d = set_prediction_type f (dependent_col d) ptype"
  by (auto simp: init_def Let_def split: sum.splits)

lemma set_dependent_col_in_columns:
  "set_dependent_col f dcol = Inr dep \<Longrightarrow> dep \<in> set (columns_tolist f)"
  by (auto simp: set_dependent_col_def split: option.splits if_splits)

lemma filter_name_distinct:
  "distinct (map col_name xs) \<Longrightarrow> c \<in> set xs \<Longrightarrow>
     filter (\<lambda>x. col_name x = col_name c) xs = [c]"
proof (induction xs)
  case Nil
  then show ?case by simp
next
  case (Cons a as)
  show ?case
  proof (cases "a = c")
    case True
    with Cons.prems have "col_name c \<notin> col_name ` set as" by simp
    then have "\<forall>x\<in>set as. col_name x \<noteq> col_name c" by (metis image_eqI)
    then have "filter (\<lambda>x. col_name x = col_name c) as = []" by (simp add: filter_empty_conv)
    with True show ?thesis by simp
  next
    case False
    with Cons.prems have "c \<in> set as" "col_name a \<noteq> col_name c" by auto
    with Cons show ?thesis by simp
  qed
qed

lemma getcol_distinct:
  assumes "distinct (columns_tolist f)" "label \<in> set (columns_tolist f)"
  shows "\<exists>c. getcol f label = Inr c \<and> c \<in> set (frame_cols f) \<and> col_name c = label"
proof -
  from assms(2) obtain c where c: "c \<in> set (frame_cols f)" "col_name c = label"
    by (auto simp: columns_tolist_def)
  have "distinct (map col_name (frame_cols f))" using assms(1) by (simp add: columns_tolist_def)
  from filter_name_distinct [OF this c(1)] c show ?thesis by (auto simp: getcol_def)
qed

lemma getcol_Inr:
  "getcol f label = Inr c \<Longrightarrow> c \<in> set (frame_cols f) \<and> col_name c = label"
proof -
  assume a: "getcol f label = Inr c"
  then have "filter (\<lambda>x. col_name x = label) (frame_cols f) = [c]"
    by (auto simp: getcol_def split: list.splits)
  then have "c \<in> set (filter (\<lambda>x. col_name x = label) (frame_cols f))" by simp
  then show ?thesis by simp
qed

text \<open>
  C9.  For a dataset with at least two columns and no explicit dependent column, the
  resolution step returns the last column name in declared order, and every descriptor
  constructed this way has that name as its dependent column.
\<close>

theorem default_dependent_col_is_last:
  assumes "2 \<le> length (frame_cols f)"
  shows "set_dependent_col f None = Inr (last (columns_tolist f))
       \<and> (\<forall>d. init str_num f ptype None cats = Inr d
              \<longrightarrow> dependent_col d = last (columns_tolist f))"
proof -
  from assms have ne: "columns_tolist f \<noteq> []" by (auto simp: columns_tolist_def)
  then have r: "set_dependent_col f None = Inr (last (columns_tolist f))"
    by (simp add: set_dependent_col_def)
  then show ?thesis by (auto dest: init_dependent_col)
qed

theorem default_dependent_col_is_last_witness:
  "2 \<le> length (frame_cols color_frame)
   \<and> (\<exists>d. init (\<lambda>r. []) color_frame None None None = Inr d \<and> dependent_col d = ''y'')"
proof -
  have h: "2 \<le> length (frame_cols color_frame)" by (simp add: color_frame_def)
  have e: "\<exists>d. init (\<lambda>r. []) color_frame None None None = Inr d"
    by (simp add: init_defs color_frame_def)
  have l: "last (columns_tolist color_frame) = ''y''"
    by (simp add: columns_tolist_def color_frame_def)
  from default_dependent_col_is_last [OF h, of "\<lambda>r. []" None None] e l h show ?thesis by auto
qed

text \<open>
  C5, amended.  Without a supplied prediction type the test is on the dtype of the
  dependent column, not on its values: the descriptor gets \<open>'regression'\<close> when the
  dependent column name is among the columns of numeric dtype, which for a well-formed
  dataset means that the dependent column has a numeric dtype, and \<open>'classification'\<close>
  otherwise.  A supplied prediction type is stored as it is: construction fails or
  succeeds exactly as it does without one, and the descriptors differ in that field only.
\<close>

theorem prediction_type_resolution:
  "(\<forall>d. init str_num f None dcol cats = Inr d \<longrightarrow>
        prediction_type d
          = (if dependent_col d \<in> set (columns_tolist (get_numeric_data f))
             then ''regression'' else ''classification''))
   \<and> (\<forall>d. wf_frame f \<and> init str_num f None dcol cats = Inr d \<longrightarrow>
        (\<exists>c. getcol f (dependent_col d) = Inr c
           \<and> prediction_type d
               = (if col_dtype c = Numeric then ''regression'' else ''classification'')))
   \<and> (case init str_num f None dcol cats of
        Inl e \<Rightarrow> init str_num f (Some p) dcol cats = Inl e
      | Inr d \<Rightarrow> init str_num f (Some p) dcol cats = Inr (d\<lparr>prediction_type := p\<rparr>))"
proof (intro conjI allI impI)
  fix d
  assume "init str_num f None dcol cats = Inr d"
  then show "prediction_type d
          = (if dependent_col d \<in> set (columns_tolist (get_numeric_data f))
             then ''regression'' else ''classification'')"
    by (simp add: init_prediction_type set_prediction_type_def)
next
  fix d
  assume a: "wf_frame f \<and> init str_num f None dcol cats = Inr d"
  then have dist: "distinct (columns_tolist f)" by (simp add: wf_frame_def columns_tolist_def)
  from a have "dependent_col d \<in> set (columns_tolist f)"
    by (auto dest!: init_dependent_col set_dependent_col_in_columns)
  from getcol_distinct [OF dist this] obtain c where
    c: "getcol f (dependent_col d) = Inr c" "c \<in> set (frame_cols f)" "col_name c = dependent_col d"
    by blast
  have "dependent_col d \<in> set (columns_tolist (get_numeric_data f)) \<longleftrightarrow> col_dtype c = Numeric"
  proof
    assume "dependent_col d \<in> set (columns_tolist (get_numeric_data f))"
    then obtain c' where c': "c' \<in> set (frame_cols f)" "col_dtype c' = Numeric"
      "col_name c' = dependent_col d"
      by (auto simp: columns_tolist_def get_numeric_data_def)
    with c dist have "c' = c"
      by (metis columns_tolist_def distinct_map inj_onD)
    with c' show "col_dtype c = Numeric" by simp
  next
    assume "col_dtype c = Numeric"
    with c show "dependent_col d \<in> set (columns_tolist (get_numeric_data f))"
      by (force simp: columns_tolist_def get_numeric_data_def)
  qed
  moreover from a have "prediction_type d = set_prediction_type f (dependent_col d) None"
    by (auto dest: init_prediction_type)
  ultimately show "\<exists>c. getcol f (dependent_col d) = Inr c
           \<and> prediction_type d
               = (if col_dtype c = Numeric then ''regression'' else ''classification'')"
    using c by (auto simp: set_prediction_type_def)
next
  show "case init str_num f None dcol cats of
        Inl e \<Rightarrow> init str_num f (Some p) dcol cats = Inl e
      | Inr d \<Rightarrow> init str_num f (Some p) dcol cats = Inr (d\<lparr>prediction_type := p\<rparr>)"
    by (auto simp: init_def Let_def set_prediction_type_def split: sum.splits)
qed

theorem prediction_type_resolution_witness:
  "wf_frame color_frame
   \<and> (\<exists>d c. init (\<lambda>r. []) color_frame None None None = Inr d
        \<and> getcol color_frame (dependent_col d) = Inr c \<and> col_dtype c = Object
        \<and> prediction_type d = ''classification'')
   \<and> wf_frame target_frame
   \<and> (\<exists>d c. init (\<lambda>r. []) target_frame None None None = Inr d
        \<and> getcol target_frame (dependent_col d) = Inr c \<and> col_dtype c = Numeric
        \<and> prediction_type d = ''regression'')"
proof -
  have w: "wf_frame color_frame" by (simp add: wf_frame_def color_frame_def)
  obtain d where d: "init (\<lambda>r. []) color_frame None None None = Inr d" "dependent_col d = ''y''"
    by (simp add: init_defs color_frame_def)
  from prediction_type_resolution [of "\<lambda>r. []" color_frame None None "''regression''"] w d
  obtain c where c: "getcol color_frame (dependent_col d) = Inr c"
    "prediction_type d = (if col_dtype c = Numeric then ''regression'' else ''classification'')"
    by blast
  from c(1) d(2) have "col_dtype c = Object" by (auto simp: getcol_def color_frame_def)
  with c d have 1: "\<exists>d c. init (\<lambda>r. []) color_frame None None None = Inr d
        \<and> getcol color_frame (dependent_col d) = Inr c \<and> col_dtype c = Object
        \<and> prediction_type d = ''classification''" by auto
  have w': "wf_frame target_frame" by (simp add: wf_frame_def target_frame_def)
  obtain d' where d': "init (\<lambda>r. []) target_frame None None None = Inr d'"
    "dependent_col d' = ''target''"
    by (simp add: init_defs target_frame_def)
  from prediction_type_resolution [of "\<lambda>r. []" target_frame None None "''regression''"] w' d'
  obtain c' where c': "getcol target_frame (dependent_col d') = Inr c'"
    "prediction_type d' = (if col_dtype c' = Numeric then ''regression'' else ''classification'')"
    by blast
  from c'(1) d'(2) have "col_dtype c' = Numeric" by (auto simp: getcol_def target_frame_def)
  with c' d' have 2: "\<exists>d c. init (\<lambda>r. []) target_frame None None None = Inr d
        \<and> getcol target_frame (dependent_col d) = Inr c \<and> col_dtype c = Numeric
        \<and> prediction_type d = ''regression''" by auto
  from w 1 w' 2 show ?thesis by (intro conjI)
qed

text \<open>
  C5, as stated, fails: the dependent column \<open>y\<close> holds the numbers 0 and 1 in a column
  of dtype object, so all its values are numeric, and the inferred prediction type is
  \<open>'classification'\<close>.
\<close>

theorem prediction_type_resolution_counterexample:
  "case init (\<lambda>r. []) coded_frame None None None of
     Inl e \<Rightarrow> False
   | Inr d \<Rightarrow>
       getcol (df d) (dependent_col d)
         = Inr \<lparr>col_name = ''y'', col_dtype = Object, col_cells = [Num 0, Num 1]\<rparr>
       \<and> list_all is_num [Num 0, Num 1]
       \<and> prediction_type d = ''classification''"
  by (simp add: init_defs coded_frame_def)

lemma encode_column_error:
  "encode_column str_num f label = Inl e \<Longrightarrow> e = KeyError \<or> e = AttributeError \<or> e = TypeError"
  by (auto simp: encode_column_def getcol_def label_encode_def
      split: sum.splits list.splits if_splits)

lemma categorical_column_encoder_error:
  "categorical_column_encoder str_num f cs = Inl e \<Longrightarrow>
     e = KeyError \<or> e = AttributeError \<or> e = TypeError"
proof (induction cs arbitrary: f)
  case Nil
  then show ?case by simp
next
  case (Cons a cs)
  then show ?case
    by (auto split: sum.splits dest: encode_column_error)
qed

text \<open>
  C6, as stated, fails: with an existing dependent column name construction can still
  fail, here with KeyError for a categorical column name that the dataset does not have.
\<close>

theorem explicit_dependent_col_counterexample:
  "''y'' \<in> set (columns_tolist color_frame)
   \<and> init (\<lambda>r. []) color_frame None (Some ''y'') (Some [''zzz'']) = Inl KeyError"
  by (simp add: init_defs color_frame_def)

text \<open>
  C6, amended.  A supplied dependent column name that is not a column name makes
  construction fail with ValueError, whatever the other arguments.  With an existing
  name the resolution step succeeds with that name, construction never fails with
  ValueError, and every descriptor it returns has that name as its dependent column.
\<close>

theorem explicit_dependent_col:
  "(name \<notin> set (columns_tolist f) \<longrightarrow>
      init str_num f ptype (Some name) cats = Inl ValueError)
   \<and> (name \<in> set (columns_tolist f) \<longrightarrow>
        set_dependent_col f (Some name) = Inr name
        \<and> init str_num f ptype (Some name) cats \<noteq> Inl ValueError
        \<and> (\<forall>d. init str_num f ptype (Some name) cats = Inr d \<longrightarrow> dependent_col d = name))"
proof (intro conjI impI allI)
  assume "name \<notin> set (columns_tolist f)"
  then show "init str_num f ptype (Some name) cats = Inl ValueError"
    by (simp add: init_def set_dependent_col_def)
next
  assume "name \<in> set (columns_tolist f)"
  then show r: "set_dependent_col f (Some name) = Inr name"
    by (simp add: set_dependent_col_def)
  show "init str_num f ptype (Some name) cats \<noteq> Inl ValueError"
    using r by (auto simp: init_def Let_def split: sum.splits dest: categorical_column_encoder_error)
  fix d
  assume "init str_num f ptype (Some name) cats = Inr d"
  with r show "dependent_col d = name" by (auto dest: init_dependent_col)
qed

theorem explicit_dependent_col_witness:
  "''zzz'' \<notin> set (columns_tolist color_frame)
   \<and> init (\<lambda>r. []) color_frame None (Some ''zzz'') None = Inl ValueError
   \<and> ''color'' \<in> set (columns_tolist color_frame)
   \<and> (\<exists>d. init (\<lambda>r. []) color_frame None (Some ''color'') None = Inr d
         \<and> dependent_col d = ''color'')"
proof -
  have a: "''zzz'' \<notin> set (columns_tolist color_frame)"
    and b: "''color'' \<in> set (columns_tolist color_frame)"
    by (simp_all add: columns_tolist_def color_frame_def)
  have e: "\<exists>d. init (\<lambda>r. []) color_frame None (Some ''color'') None = Inr d"
    by (simp add: init_defs color_frame_def)
  from explicit_dependent_col [of "''zzz''" color_frame "\<lambda>r. []" None None]
    explicit_dependent_col [of "''color''" color_frame "\<lambda>r. []" None None] a b e
  show ?thesis by auto
qed

text \<open>
  C2 on the columns \<open>a\<close>, \<open>b\<close>, \<open>target\<close>: the characters of the dependent column
  name are subtracted, not the name, so \<open>target\<close> stays among the independent columns
  and \<open>a\<close> is removed from them.
\<close>

theorem independent_col_keeps_dependent:
  "case init (\<lambda>r. []) target_frame None None None of
     Inl e \<Rightarrow> False
   | Inr d \<Rightarrow> dependent_col d = ''target''
            \<and> independent_col d = [''b'', ''target'']
            \<and> dependent_col d \<in> set (independent_col d)
            \<and> ''a'' \<in> set (columns_tolist target_frame) - {dependent_col d}
            \<and> ''a'' \<notin> set (independent_col d)"
  by (simp add: init_defs target_frame_def) 

text \<open>The set difference is the intended one when the name is a single character.\<close>

lemma independent_col_single_char:
  assumes "init str_num f ptype dcol cats = Inr d" "length (dependent_col d) = 1"
  shows "set (independent_col d) = set (columns_tolist f) - {dependent_col d}"
proof -
  from assms(2) obtain ch where "dependent_col d = [ch]"
    by (cases "dependent_col d") auto
  moreover from assms(1) have "independent_col d = compute_independent_col f (dependent_col d)"
    by (auto simp: init_def Let_def split: sum.splits)
  ultimately show ?thesis by (auto simp: compute_independent_col_def set_of_str_def)
qed


section \<open>The encoded dataset\<close>

lemma set_insort_cell: "set (insort_cell x xs) = insert x (set xs)"
  by (induction xs) auto

lemma length_insort_cell: "length (insort_cell x xs) = Suc (length xs)"
  by (induction xs) auto

lemma distinct_insort_cell: "distinct (insort_cell x xs) \<longleftrightarrow> x \<notin> set xs \<and> distinct xs"
  by (induction xs) (auto simp: set_insort_cell)

lemma set_sort_cells: "set (sort_cells xs) = set xs"
  unfolding sort_cells_def by (induction xs) (auto simp: set_insort_cell)

lemma length_sort_cells: "length (sort_cells xs) = length xs"
  unfolding sort_cells_def by (induction xs) (auto simp: length_insort_cell)

lemma distinct_sort_cells: "distinct (sort_cells xs) = distinct xs"
proof (induction xs)
  case Nil
  then show ?case by (simp add: sort_cells_def)
next
  case (Cons a xs)
  have "sort_cells (a # xs) = insort_cell a (sort_cells xs)" by (simp add: sort_cells_def)
  with Cons show ?case by (simp add: distinct_insort_cell set_sort_cells)
qed

lemma set_unique: "set (unique xs) = set xs"
  by (simp add: unique_def)

lemma distinct_unique: "distinct (unique xs)"
  by (simp add: unique_def)

lemma length_unique: "length (unique xs) = card (set xs)"
  using distinct_card [OF distinct_unique, of xs] by (simp add: set_unique)

lemma isna_iff: "isna x \<longleftrightarrow> x = NA \<or> x = PyNone"
  by (cases x) auto

lemma set_dropna: "set (dropna xs) = set xs - {NA, PyNone}"
  by (auto simp: dropna_def isna_iff)

text \<open>The two missing values add at most two to the number of distinct values.\<close>

lemma unique_bounds:
  "length (unique (dropna xs)) \<le> length (unique xs)
   \<and> length (unique xs) \<le> length (unique (dropna xs)) + 2"
proof -
  have "card (set xs - {NA, PyNone}) \<le> card (set xs)"
    by (rule card_mono) auto
  moreover have "card (set xs) \<le> card ((set xs - {NA, PyNone}) \<union> {NA, PyNone})"
    by (rule card_mono) auto
  moreover have "card ((set xs - {NA, PyNone}) \<union> {NA, PyNone})
      \<le> card (set xs - {NA, PyNone}) + card {NA, PyNone}"
    by (rule card_Un_le)
  moreover have "card {NA, PyNone} = 2" by simp
  ultimately show ?thesis by (simp add: length_unique set_dropna)
qed

lemma index_of_less: "x \<in> set xs \<Longrightarrow> index_of xs x < length xs"
  by (induction xs) auto

lemma set_label_classes: "set (label_classes xs) = set xs"
  by (auto simp: label_classes_def set_sort_cells set_unique set_dropna)

lemma distinct_label_classes: "distinct (label_classes xs)"
  by (auto simp: label_classes_def distinct_sort_cells distinct_unique set_sort_cells
      set_unique set_dropna)

lemma length_label_classes: "length (label_classes xs) = length (unique xs)"
  using distinct_card [OF distinct_label_classes, of xs]
  by (simp add: set_label_classes length_unique)

lemma label_codes_binary:
  assumes "length (unique xs) \<le> 2"
  shows "set (label_codes xs) \<subseteq> {Num 0, Num 1}"
proof
  fix v
  assume "v \<in> set (label_codes xs)"
  then obtain x where x: "x \<in> set xs" "v = Num (real (index_of (label_classes xs) x))"
    by (auto simp: label_codes_def)
  from x(1) have "index_of (label_classes xs) x < length (label_classes xs)"
    by (intro index_of_less) (simp add: set_label_classes)
  with assms have "index_of (label_classes xs) x < 2" by (simp add: length_label_classes)
  then have "index_of (label_classes xs) x = 0 \<or> index_of (label_classes xs) x = 1"
    by arith
  with x(2) show "v \<in> {Num 0, Num 1}" by auto
qed

lemma length_label_codes: "length (label_codes xs) = length xs"
  by (simp add: label_codes_def)

lemma binary_cells_unique:
  assumes "set xs \<subseteq> {Num 0, Num 1}"
  shows "length (unique xs) \<le> 2"
proof -
  have "card (set xs) \<le> card {Num 0, Num 1 :: cell}"
    by (rule card_mono) (use assms in auto)
  also have "\<dots> \<le> 2" by (simp add: card_insert_if)
  finally show ?thesis by (simp add: length_unique)
qed

lemma count_indicator:
  "count_list (map (\<lambda>v. if x = v then Num 1 else Num 0) ys) (Num 1) = count_list ys x"
  by (induction ys) auto

lemma count_list_distinct:
  "distinct ys \<Longrightarrow> count_list ys x = (if x \<in> set ys then 1 else 0)"
  by (induction ys) auto

lemma getcol_filter: "getcol f label = Inr c \<Longrightarrow> filter (\<lambda>x. col_name x = label) (frame_cols f) = [c]"
  by (auto simp: getcol_def split: list.splits)

lemma filter_getcol: "filter (\<lambda>x. col_name x = label) (frame_cols f) = [c] \<Longrightarrow> getcol f label = Inr c"
  by (simp add: getcol_def)

text \<open>The indicator columns of one column.\<close>

lemma length_dummies: "length (dummies str_num c) = length (unique (dropna (col_cells c)))"
  by (simp add: dummies_def length_sort_cells)

lemma names_dummies:
  "set (map col_name (dummies str_num c))
     = (\<lambda>v. col_name c @ ''_'' @ str_of_cell str_num v) ` (set (col_cells c) - {NA, PyNone})"
  by (simp add: dummies_def dummy_column_def comp_def set_sort_cells set_unique set_dropna)

lemma cells_dummies:
  "x \<in> set (dummies str_num c) \<Longrightarrow>
     length (col_cells x) = length (col_cells c) \<and> set (col_cells x) \<subseteq> {Num 0, Num 1}"
  by (auto simp: dummies_def dummy_column_def)

lemma dummies_row:
  assumes "i < length (col_cells c)"
  shows "count_list (map (\<lambda>x. col_cells x ! i) (dummies str_num c)) (Num 1)
         = (if isna (col_cells c ! i) then 0 else 1)"
proof -
  let ?cats = "sort_cells (unique (dropna (col_cells c)))"
  have eq: "map (\<lambda>x. col_cells x ! i) (dummies str_num c)
        = map (\<lambda>v. if col_cells c ! i = v then Num 1 else Num 0) ?cats"
    using assms by (simp add: dummies_def dummy_column_def comp_def)
  have "count_list (map (\<lambda>x. col_cells x ! i) (dummies str_num c)) (Num 1)
        = count_list ?cats (col_cells c ! i)"
    by (simp only: eq count_indicator)
  also have "\<dots> = (if col_cells c ! i \<in> set ?cats then 1 else 0)"
    by (rule count_list_distinct) (simp add: distinct_sort_cells distinct_unique)
  also have "col_cells c ! i \<in> set ?cats \<longleftrightarrow> \<not> isna (col_cells c ! i)"
    using assms by (simp add: set_sort_cells set_unique set_dropna isna_iff)
  finally show ?thesis by simp
qed

text \<open>One pass of the loop body.\<close>

lemma encode_column_step:
  assumes "encode_column str_num g l = Inr g'"
  shows "\<exists>c. filter (\<lambda>x. col_name x = l) (frame_cols g) = [c] \<and>
     (if 2 < length (unique (col_cells c))
      then frame_cols g' = filter (\<lambda>x. col_name x \<noteq> l) (frame_cols g) @ dummies str_num c
      else \<not> mixed_types (col_cells c) \<and>
           frame_cols g' =
             map (\<lambda>x. if col_name x = l
                       then x\<lparr>col_dtype := Numeric, col_cells := label_codes (col_cells x)\<rparr>
                       else x) (frame_cols g))"
proof -
  from assms obtain c where c: "getcol g l = Inr c"
    by (auto simp: encode_column_def split: sum.splits)
  then have f: "filter (\<lambda>x. col_name x = l) (frame_cols g) = [c]" by (rule getcol_filter)
  then have only: "x \<in> set (frame_cols g) \<Longrightarrow> col_name x = l \<Longrightarrow> x = c" for x
  proof -
    assume "x \<in> set (frame_cols g)" "col_name x = l"
    then have "x \<in> set (filter (\<lambda>x. col_name x = l) (frame_cols g))" by simp
    with f show "x = c" by simp
  qed
  have nm: "col_name c = l" using c by (simp add: getcol_Inr)
  show ?thesis
  proof (cases "2 < length (unique (col_cells c))")
    case True
    with assms c have "g' = get_dummies str_num g c" by (simp add: encode_column_def)
    then have "frame_cols g' = filter (\<lambda>x. col_name x \<noteq> l) (frame_cols g) @ dummies str_num c"
      by (simp add: get_dummies_def nm)
    with f True show ?thesis by simp
  next
    case False
    with assms c have nmx: "\<not> mixed_types (col_cells c)"
      and g': "g' = setcol g l (label_codes (col_cells c))"
      by (auto simp: encode_column_def label_encode_def split: if_splits)
    have "frame_cols g' =
             map (\<lambda>x. if col_name x = l
                       then x\<lparr>col_dtype := Numeric, col_cells := label_codes (col_cells x)\<rparr>
                       else x) (frame_cols g)"
      unfolding g' setcol_def by (auto dest: only)
    with f False nmx show ?thesis by simp
  qed
qed

text \<open>
  A label that the loop still has to process selects at most one column of the current
  frame, or the loop fails at that label.
\<close>

lemma encoder_lookup_unique:
  assumes "categorical_column_encoder str_num g cc = Inr enc" "l \<in> set cc"
  shows "length (filter (\<lambda>x. col_name x = l) (frame_cols g)) \<le> 1"
  using assms
proof (induction cc arbitrary: g)
  case Nil
  then show ?case by simp
next
  case (Cons h rest)
  from Cons.prems(1) obtain g' where step: "encode_column str_num g h = Inr g'"
    and rest: "categorical_column_encoder str_num g' rest = Inr enc"
    by (auto split: sum.splits)
  from encode_column_step [OF step] obtain c where
    c: "filter (\<lambda>x. col_name x = h) (frame_cols g) = [c]"
    and shape: "if 2 < length (unique (col_cells c))
      then frame_cols g' = filter (\<lambda>x. col_name x \<noteq> h) (frame_cols g) @ dummies str_num c
      else \<not> mixed_types (col_cells c) \<and>
           frame_cols g' =
             map (\<lambda>x. if col_name x = h
                       then x\<lparr>col_dtype := Numeric, col_cells := label_codes (col_cells x)\<rparr>
                       else x) (frame_cols g)"
    by blast
  show ?case
  proof (cases "l = h")
    case True
    with c show ?thesis by simp
  next
    case False
    with Cons.prems(2) have "l \<in> set rest" by simp
    from Cons.IH [OF rest this]
    have le: "length (filter (\<lambda>x. col_name x = l) (frame_cols g')) \<le> 1" .
    show ?thesis
    proof (cases "2 < length (unique (col_cells c))")
      case True
      with shape have "frame_cols g'
          = filter (\<lambda>x. col_name x \<noteq> h) (frame_cols g) @ dummies str_num c" by simp
      moreover have "filter (\<lambda>x. col_name x = l) (filter (\<lambda>x. col_name x \<noteq> h) (frame_cols g))
          = filter (\<lambda>x. col_name x = l) (frame_cols g)"
        using False by (auto intro: filter_cong)
      ultimately have "length (filter (\<lambda>x. col_name x = l) (frame_cols g'))
          = length (filter (\<lambda>x. col_name x = l) (frame_cols g))
            + length (filter (\<lambda>x. col_name x = l) (dummies str_num c))"
        by simp
      with le show ?thesis by simp
    next
      case False
      with shape have "frame_cols g' =
             map (\<lambda>x. if col_name x = h
                       then x\<lparr>col_dtype := Numeric, col_cells := label_codes (col_cells x)\<rparr>
                       else x) (frame_cols g)" by simp
      then have "filter (\<lambda>x. col_name x = l) (frame_cols g')
          = map (\<lambda>x. if col_name x = h
                       then x\<lparr>col_dtype := Numeric, col_cells := label_codes (col_cells x)\<rparr>
                       else x) (filter (\<lambda>x. col_name x = l) (frame_cols g))"
        by (simp add: filter_map comp_def if_distrib cong: if_cong)
      then have "length (filter (\<lambda>x. col_name x = l) (frame_cols g'))
          = length (filter (\<lambda>x. col_name x = l) (frame_cols g))" by simp
      with le show ?thesis by simp
    qed
  qed
qed

text \<open>
  The columns of the encoded frame, for distinct labels of columns of the frame: the
  columns that are not expanded, in order, with those of a label replaced by their
  codes, followed by the indicator columns of the expanded columns in the order of the
  labels.
\<close>

lemma encoder_columns:
  assumes "categorical_column_encoder str_num g cc = Inr enc" "distinct cc"
    "set cc \<subseteq> col_name ` set (frame_cols g)"
  shows "frame_cols enc =
      map (\<lambda>x. if col_name x \<in> set cc
                then x\<lparr>col_dtype := Numeric, col_cells := label_codes (col_cells x)\<rparr> else x)
        (filter (\<lambda>x. \<not> (col_name x \<in> set cc \<and> 2 < length (unique (col_cells x))))
           (frame_cols g))
      @ concat (map (\<lambda>l. concat (map (dummies str_num)
                  (filter (\<lambda>x. col_name x = l \<and> 2 < length (unique (col_cells x)))
                     (frame_cols g)))) cc)"
  using assms
proof (induction cc arbitrary: g)
  case Nil
  then show ?case by simp
next
  case (Cons l rest)
  let ?u = "\<lambda>x. length (unique (col_cells x))"
  let ?code = "\<lambda>x. x\<lparr>col_dtype := Numeric, col_cells := label_codes (col_cells x)\<rparr>"
  let ?st = "\<lambda>x. if col_name x = l then ?code x else x"
  from Cons.prems(1) obtain g' where step: "encode_column str_num g l = Inr g'"
    and rest: "categorical_column_encoder str_num g' rest = Inr enc"
    by (auto split: sum.splits)
  from Cons.prems(2) have lr: "l \<notin> set rest" and dr: "distinct rest" by simp_all
  from encode_column_step [OF step] obtain c where
    c: "filter (\<lambda>x. col_name x = l) (frame_cols g) = [c]"
    and shape: "if 2 < ?u c
      then frame_cols g' = filter (\<lambda>x. col_name x \<noteq> l) (frame_cols g) @ dummies str_num c
      else \<not> mixed_types (col_cells c) \<and> frame_cols g' = map ?st (frame_cols g)"
    by blast
  have only: "x = c" if "x \<in> set (frame_cols g)" "col_name x = l" for x
  proof -
    from that have "x \<in> set (filter (\<lambda>x. col_name x = l) (frame_cols g))" by simp
    with c show "x = c" by simp
  qed
  have cin: "c \<in> set (frame_cols g)" "col_name c = l"
  proof -
    have "c \<in> set (filter (\<lambda>x. col_name x = l) (frame_cols g))" by (simp add: c)
    then show "c \<in> set (frame_cols g)" "col_name c = l" by simp_all
  qed
  show ?case
  proof (cases "2 < ?u c")
    case True
    let ?F = "filter (\<lambda>x. col_name x \<noteq> l) (frame_cols g)"
    let ?D = "dummies str_num c"
    from shape True have g': "frame_cols g' = ?F @ ?D" by simp
    have sub: "set rest \<subseteq> col_name ` set (frame_cols g')"
    proof
      fix l'
      assume l': "l' \<in> set rest"
      with Cons.prems(3) obtain x where "x \<in> set (frame_cols g)" "col_name x = l'" by auto
      moreover from l' lr have "l' \<noteq> l" by auto
      ultimately have "x \<in> set ?F" "col_name x = l'" by simp_all
      then show "l' \<in> col_name ` set (frame_cols g')" unfolding g' by force
    qed
    have noD: "col_name x \<notin> set rest" if "x \<in> set ?D" for x
    proof
      assume in_rest: "col_name x \<in> set rest"
      with lr have ne: "col_name x \<noteq> l" by auto
      from Cons.prems(3) in_rest obtain y where y: "y \<in> set (frame_cols g)"
        "col_name y = col_name x" by force
      with ne have yF: "y \<in> set (filter (\<lambda>z. col_name z = col_name x) ?F)" by simp
      from that have xD: "x \<in> set (filter (\<lambda>z. col_name z = col_name x) ?D)" by simp
      from length_pos_if_in_set [OF yF]
      have "1 \<le> length (filter (\<lambda>z. col_name z = col_name x) ?F)" by arith
      moreover from length_pos_if_in_set [OF xD]
      have "1 \<le> length (filter (\<lambda>z. col_name z = col_name x) ?D)" by arith
      ultimately have "2 \<le> length (filter (\<lambda>z. col_name z = col_name x) (frame_cols g'))"
        unfolding g' by simp
      with encoder_lookup_unique [OF rest in_rest] show False by simp
    qed
    note IH = Cons.IH [OF rest dr sub]
    have k1: "filter (\<lambda>x. \<not> (col_name x \<in> set rest \<and> 2 < ?u x)) (frame_cols g')
        = filter (\<lambda>x. \<not> (col_name x \<in> set (l # rest) \<and> 2 < ?u x)) (frame_cols g) @ ?D"
    proof -
      have "filter (\<lambda>x. \<not> (col_name x \<in> set rest \<and> 2 < ?u x)) ?D = ?D"
        using noD by (simp add: filter_id_conv)
      moreover have "filter (\<lambda>x. \<not> (col_name x \<in> set rest \<and> 2 < ?u x)) ?F
        = filter (\<lambda>x. \<not> (col_name x \<in> set (l # rest) \<and> 2 < ?u x)) (frame_cols g)"
        unfolding filter_filter
        by (rule filter_cong) (use True only in auto)
      ultimately show ?thesis unfolding g' by simp
    qed
    have k2: "map (\<lambda>x. if col_name x \<in> set rest then ?code x else x)
          (filter (\<lambda>x. \<not> (col_name x \<in> set (l # rest) \<and> 2 < ?u x)) (frame_cols g) @ ?D)
        = map (\<lambda>x. if col_name x \<in> set (l # rest) then ?code x else x)
          (filter (\<lambda>x. \<not> (col_name x \<in> set (l # rest) \<and> 2 < ?u x)) (frame_cols g)) @ ?D"
    proof -
      have "map (\<lambda>x. if col_name x \<in> set rest then ?code x else x) ?D = ?D"
        using noD by (simp add: map_idI)
      moreover have "map (\<lambda>x. if col_name x \<in> set rest then ?code x else x)
          (filter (\<lambda>x. \<not> (col_name x \<in> set (l # rest) \<and> 2 < ?u x)) (frame_cols g))
        = map (\<lambda>x. if col_name x \<in> set (l # rest) then ?code x else x)
          (filter (\<lambda>x. \<not> (col_name x \<in> set (l # rest) \<and> 2 < ?u x)) (frame_cols g))"
        by (rule map_cong) (use True only in auto)
      ultimately show ?thesis by simp
    qed
    have k3: "filter (\<lambda>x. col_name x = l' \<and> 2 < ?u x) (frame_cols g')
        = filter (\<lambda>x. col_name x = l' \<and> 2 < ?u x) (frame_cols g)" if "l' \<in> set rest" for l'
    proof -
      from that lr have ne: "l' \<noteq> l" by auto
      have "filter (\<lambda>x. col_name x = l' \<and> 2 < ?u x) ?D = []"
        using noD that by (auto simp: filter_empty_conv)
      moreover have "filter (\<lambda>x. col_name x = l' \<and> 2 < ?u x) ?F
        = filter (\<lambda>x. col_name x = l' \<and> 2 < ?u x) (frame_cols g)"
        unfolding filter_filter by (rule filter_cong) (use ne in auto)
      ultimately show ?thesis unfolding g' by simp
    qed
    have k4: "filter (\<lambda>x. col_name x = l \<and> 2 < ?u x) (frame_cols g) = [c]"
    proof -
      have "filter (\<lambda>x. col_name x = l \<and> 2 < ?u x) (frame_cols g)
          = filter (\<lambda>x. 2 < ?u x) (filter (\<lambda>x. col_name x = l) (frame_cols g))"
        unfolding filter_filter by (rule filter_cong) auto
      with c True show ?thesis by simp
    qed
    have k5: "map (\<lambda>l'. concat (map (dummies str_num)
                  (filter (\<lambda>x. col_name x = l' \<and> 2 < ?u x) (frame_cols g')))) rest
        = map (\<lambda>l'. concat (map (dummies str_num)
                  (filter (\<lambda>x. col_name x = l' \<and> 2 < ?u x) (frame_cols g)))) rest"
      by (rule map_cong) (simp_all add: k3)
    show ?thesis
      unfolding IH k1 k2 k5 by (simp add: k4)
  next
    case False
    from shape False have g': "frame_cols g' = map ?st (frame_cols g)" by simp
    have names: "col_name (?st x) = col_name x" for x by simp
    have sub: "set rest \<subseteq> col_name ` set (frame_cols g')"
    proof
      fix l'
      assume "l' \<in> set rest"
      with Cons.prems(3) obtain x where x: "x \<in> set (frame_cols g)" "col_name x = l'" by auto
      have "set (map col_name (frame_cols g')) = set (map col_name (frame_cols g))"
        unfolding g' map_map comp_def by (simp add: if_distrib cong: if_cong)
      moreover from x have "l' \<in> set (map col_name (frame_cols g))" by force
      ultimately have "l' \<in> set (map col_name (frame_cols g'))" by simp
      then show "l' \<in> col_name ` set (frame_cols g')" by simp
    qed
    note IH = Cons.IH [OF rest dr sub]
    have k1: "map (\<lambda>x. if col_name x \<in> set rest then ?code x else x)
          (filter (\<lambda>x. \<not> (col_name x \<in> set rest \<and> 2 < ?u x)) (frame_cols g'))
        = map (\<lambda>x. if col_name x \<in> set (l # rest) then ?code x else x)
          (filter (\<lambda>x. \<not> (col_name x \<in> set (l # rest) \<and> 2 < ?u x)) (frame_cols g))"
    proof -
      have "filter (\<lambda>x. \<not> (col_name x \<in> set rest \<and> 2 < ?u x)) (map ?st (frame_cols g))
          = map ?st (filter (\<lambda>x. \<not> (col_name x \<in> set (l # rest) \<and> 2 < ?u x)) (frame_cols g))"
        unfolding filter_map comp_def
        by (rule arg_cong [where f = "map ?st"], rule filter_cong)
          (use False lr only in auto)
      moreover have "map (\<lambda>x. if col_name x \<in> set rest then ?code x else x)
            (map ?st (filter (\<lambda>x. \<not> (col_name x \<in> set (l # rest) \<and> 2 < ?u x)) (frame_cols g)))
          = map (\<lambda>x. if col_name x \<in> set (l # rest) then ?code x else x)
            (filter (\<lambda>x. \<not> (col_name x \<in> set (l # rest) \<and> 2 < ?u x)) (frame_cols g))"
        unfolding map_map comp_def by (rule map_cong) (use lr in auto)
      ultimately show ?thesis unfolding g' by simp
    qed
    have k3: "filter (\<lambda>x. col_name x = l' \<and> 2 < ?u x) (frame_cols g')
        = filter (\<lambda>x. col_name x = l' \<and> 2 < ?u x) (frame_cols g)" if "l' \<in> set rest" for l'
    proof -
      from that lr have ne: "l' \<noteq> l" by auto
      have "filter (\<lambda>x. col_name x = l' \<and> 2 < ?u x) (map ?st (frame_cols g))
          = map ?st (filter (\<lambda>x. col_name x = l' \<and> 2 < ?u x) (frame_cols g))"
        unfolding filter_map comp_def
        by (rule arg_cong [where f = "map ?st"], rule filter_cong) (use ne in auto)
      also have "\<dots> = filter (\<lambda>x. col_name x = l' \<and> 2 < ?u x) (frame_cols g)"
        by (rule map_idI) (use ne in auto)
      finally show ?thesis unfolding g' .
    qed
    have k4: "filter (\<lambda>x. col_name x = l \<and> 2 < ?u x) (frame_cols g) = []"
      using False only by (auto simp: filter_empty_conv)
    have k5: "map (\<lambda>l'. concat (map (dummies str_num)
                  (filter (\<lambda>x. col_name x = l' \<and> 2 < ?u x) (frame_cols g')))) rest
        = map (\<lambda>l'. concat (map (dummies str_num)
                  (filter (\<lambda>x. col_name x = l' \<and> 2 < ?u x) (frame_cols g)))) rest"
      by (rule map_cong) (simp_all add: k3)
    show ?thesis
      unfolding IH k1 k5 by (simp add: k4)
  qed
qed

lemma init_encoded:
  "init str_num f ptype dcol cats = Inr d \<Longrightarrow>
     categorical_column_encoder str_num f (categorical_cols d) = Inr (df_encoded d)"
  by (auto simp: init_def Let_def split: sum.splits)

lemma sum_list_filter_disj:
  fixes h :: "'a \<Rightarrow> nat"
  assumes "\<And>x. \<not> (A x \<and> B x)"
  shows "(\<Sum>x\<leftarrow>filter (\<lambda>x. A x \<or> B x) xs. h x)
           = (\<Sum>x\<leftarrow>filter A xs. h x) + (\<Sum>x\<leftarrow>filter B xs. h x)"
  using assms by (induction xs) auto

lemma sum_list_by_label:
  fixes h :: "column \<Rightarrow> nat"
  assumes "distinct cc"
  shows "(\<Sum>l\<leftarrow>cc. \<Sum>x\<leftarrow>filter (\<lambda>x. col_name x = l \<and> P x) xs. h x)
           = (\<Sum>x\<leftarrow>filter (\<lambda>x. col_name x \<in> set cc \<and> P x) xs. h x)"
  using assms
proof (induction cc)
  case Nil
  then show ?case by simp
next
  case (Cons l rest)
  then have lr: "l \<notin> set rest" and dr: "distinct rest" by simp_all
  have "filter (\<lambda>x. col_name x \<in> set (l # rest) \<and> P x) xs
      = filter (\<lambda>x. (col_name x = l \<and> P x) \<or> (col_name x \<in> set rest \<and> P x)) xs"
    by (rule filter_cong) auto
  moreover have "(\<Sum>x\<leftarrow>filter (\<lambda>x. (col_name x = l \<and> P x) \<or> (col_name x \<in> set rest \<and> P x)) xs. h x)
      = (\<Sum>x\<leftarrow>filter (\<lambda>x. col_name x = l \<and> P x) xs. h x)
        + (\<Sum>x\<leftarrow>filter (\<lambda>x. col_name x \<in> set rest \<and> P x) xs. h x)"
    by (rule sum_list_filter_disj) (use lr in auto)
  ultimately show ?case using Cons.IH [OF dr] by simp
qed

lemma length_dummies_by_label:
  assumes "distinct cc"
  shows "length (concat (map (\<lambda>l. concat (map (dummies str_num)
                  (filter (\<lambda>x. col_name x = l \<and> P x) xs))) cc))
         = (\<Sum>x\<leftarrow>filter (\<lambda>x. col_name x \<in> set cc \<and> P x) xs.
              length (unique (dropna (col_cells x))))"
proof -
  have "length (concat (map (\<lambda>l. concat (map (dummies str_num)
                  (filter (\<lambda>x. col_name x = l \<and> P x) xs))) cc))
      = (\<Sum>l\<leftarrow>cc. \<Sum>x\<leftarrow>filter (\<lambda>x. col_name x = l \<and> P x) xs.
              length (unique (dropna (col_cells x))))"
    by (simp add: length_concat comp_def length_dummies)
  with sum_list_by_label [OF assms] show ?thesis by simp
qed

text \<open>A column of indicators or of codes has at most two distinct values.\<close>

lemma dummies_unique:
  "y \<in> set (dummies str_num x) \<Longrightarrow> length (unique (col_cells y)) \<le> 2"
  by (intro binary_cells_unique) (simp add: cells_dummies)


text \<open>
  The loop succeeds only if no column that it label-encodes mixes strings and numbers.
\<close>

lemma encode_column_keeps:
  assumes "encode_column str_num g l = Inr g'" "x \<in> set (frame_cols g)" "col_name x \<noteq> l"
  shows "x \<in> set (frame_cols g')"
proof -
  from encode_column_step [OF assms(1)] obtain c where
    shape: "if 2 < length (unique (col_cells c))
      then frame_cols g' = filter (\<lambda>x. col_name x \<noteq> l) (frame_cols g) @ dummies str_num c
      else \<not> mixed_types (col_cells c) \<and>
           frame_cols g' =
             map (\<lambda>x. if col_name x = l
                       then x\<lparr>col_dtype := Numeric, col_cells := label_codes (col_cells x)\<rparr>
                       else x) (frame_cols g)"
    by blast
  show ?thesis
  proof (cases "2 < length (unique (col_cells c))")
    case True
    with shape assms(2,3) show ?thesis by simp
  next
    case False
    with shape have "frame_cols g' =
             map (\<lambda>x. if col_name x = l
                       then x\<lparr>col_dtype := Numeric, col_cells := label_codes (col_cells x)\<rparr>
                       else x) (frame_cols g)" by simp
    with assms(2,3) show ?thesis by force
  qed
qed

lemma encoder_not_mixed:
  assumes "categorical_column_encoder str_num g cc = Inr enc" "x \<in> set (frame_cols g)"
    "col_name x \<in> set cc" "length (unique (col_cells x)) \<le> 2"
  shows "\<not> mixed_types (col_cells x)"
  using assms
proof (induction cc arbitrary: g)
  case Nil
  then show ?case by simp
next
  case (Cons l rest)
  from Cons.prems(1) obtain g' where step: "encode_column str_num g l = Inr g'"
    and rest: "categorical_column_encoder str_num g' rest = Inr enc"
    by (auto split: sum.splits)
  show ?case
  proof (cases "col_name x = l")
    case True
    from encode_column_step [OF step] obtain c where
      c: "filter (\<lambda>x. col_name x = l) (frame_cols g) = [c]"
      and shape: "if 2 < length (unique (col_cells c))
        then frame_cols g' = filter (\<lambda>x. col_name x \<noteq> l) (frame_cols g) @ dummies str_num c
        else \<not> mixed_types (col_cells c) \<and>
           frame_cols g' =
             map (\<lambda>x. if col_name x = l
                       then x\<lparr>col_dtype := Numeric, col_cells := label_codes (col_cells x)\<rparr>
                       else x) (frame_cols g)"
      by blast
    from True Cons.prems(2) have "x \<in> set (filter (\<lambda>x. col_name x = l) (frame_cols g))"
      by simp
    with c have "x = c" by simp
    with shape Cons.prems(4) show ?thesis by (simp split: if_splits)
  next
    case False
    with Cons.prems(3) have "col_name x \<in> set rest" by simp
    moreover from encode_column_keeps [OF step Cons.prems(2) False]
    have "x \<in> set (frame_cols g')" .
    ultimately show ?thesis using Cons.IH [OF rest] Cons.prems(4) by blast
  qed
qed
text \<open>
  C4, amended.  Take a constructed descriptor whose categorical column names are
  distinct names of dataset columns, and one of these names.  It selects one column
  \<open>c\<close> of the dataset; let \<open>u\<close> be the number of distinct values of \<open>c\<close>, with
  not-a-number and \<open>None\<close> each counted as a value when present, and \<open>k\<close> the number of
  its distinct non-missing values.  The branch is decided by \<open>u\<close>.  If \<open>u > 2\<close>, the
  encoded dataset does not contain \<open>c\<close> and contains, side by side, exactly \<open>k\<close>
  indicator columns for it, named by the column name, an underscore and the value,
  holding 0 or 1, with exactly one 1 in each row whose value is present and none in a
  row whose value is missing.  If \<open>u \<le> 2\<close>, the label encoder did not fail on \<open>c\<close> (it
  fails with TypeError on a column that mixes strings and numbers, and then the
  construction fails), and the encoded dataset contains one column of its codes, 0 or
  1, at the position that \<open>c\<close> has among the columns that are not expanded.  Columns that
  are not categorical are kept, and the encoded dataset has \<open>k - 1\<close> columns more than
  the dataset for each expanded column.
\<close>

theorem encoding_shape:
  assumes "init str_num f ptype dcol cats = Inr d"
    and "distinct (categorical_cols d)"
    and "set (categorical_cols d) \<subseteq> set (columns_tolist f)"
    and "label \<in> set (categorical_cols d)"
  shows "\<exists>c. getcol f label = Inr c \<and>
    (if 2 < length (unique (col_cells c))
     then c \<notin> set (frame_cols (df_encoded d))
        \<and> (\<exists>pre ds post. frame_cols (df_encoded d) = pre @ ds @ post
             \<and> length ds = length (unique (dropna (col_cells c)))
             \<and> set (map col_name ds)
                 = (\<lambda>v. label @ ''_'' @ str_of_cell str_num v) ` (set (col_cells c) - {NA, PyNone})
             \<and> (\<forall>x\<in>set ds. length (col_cells x) = length (col_cells c)
                         \<and> set (col_cells x) \<subseteq> {Num 0, Num 1})
             \<and> (\<forall>i<length (col_cells c).
                   count_list (map (\<lambda>x. col_cells x ! i) ds) (Num 1)
                     = (if isna (col_cells c ! i) then 0 else 1)))
     else (\<exists>pre codes post.
             frame_cols (df_encoded d)
               = pre @ [c\<lparr>col_dtype := Numeric, col_cells := codes\<rparr>] @ post
             \<and> length pre = length (takeWhile (\<lambda>x. x \<noteq> c)
                                (filter (\<lambda>x. \<not> (col_name x \<in> set (categorical_cols d)
                                          \<and> 2 < length (unique (col_cells x)))) (frame_cols f)))
             \<and> label_encode (col_cells c) = Inr codes
             \<and> length codes = length (col_cells c)
             \<and> set codes \<subseteq> {Num 0, Num 1}))
    \<and> (\<forall>x\<in>set (frame_cols f).
          col_name x \<notin> set (categorical_cols d) \<longrightarrow> x \<in> set (frame_cols (df_encoded d)))
    \<and> length (frame_cols (df_encoded d))
        + length (filter (\<lambda>x. col_name x \<in> set (categorical_cols d)
                            \<and> 2 < length (unique (col_cells x))) (frame_cols f))
       = length (frame_cols f)
        + (\<Sum>x\<leftarrow>filter (\<lambda>x. col_name x \<in> set (categorical_cols d)
                            \<and> 2 < length (unique (col_cells x))) (frame_cols f).
             length (unique (dropna (col_cells x))))"
  (is "\<exists>c. _ \<and> ?shape c \<and> ?others \<and> ?count")
proof -
  let ?cc = "categorical_cols d"
  let ?enc = "df_encoded d"
  let ?u = "\<lambda>x. length (unique (col_cells x))"
  let ?code = "\<lambda>x. x\<lparr>col_dtype := Numeric, col_cells := label_codes (col_cells x)\<rparr>"
  let ?keep = "\<lambda>x. \<not> (col_name x \<in> set ?cc \<and> 2 < ?u x)"
  let ?K = "map (\<lambda>x. if col_name x \<in> set ?cc then ?code x else x) (filter ?keep (frame_cols f))"
  let ?G = "\<lambda>l. concat (map (dummies str_num)
                  (filter (\<lambda>x. col_name x = l \<and> 2 < ?u x) (frame_cols f)))"
  let ?D = "concat (map ?G ?cc)"
  note run = init_encoded [OF assms(1)]
  from assms(3) have sub: "set ?cc \<subseteq> col_name ` set (frame_cols f)"
    by (simp add: columns_tolist_def)
  from encoder_columns [OF run assms(2) sub]
  have cols: "frame_cols ?enc = ?K @ ?D" .
  \<comment> \<open>the label selects one column\<close>
  from sub assms(4) obtain c0 where c0: "c0 \<in> set (frame_cols f)" "col_name c0 = label"
    by auto
  then have "c0 \<in> set (filter (\<lambda>x. col_name x = label) (frame_cols f))" by simp
  from length_pos_if_in_set [OF this] encoder_lookup_unique [OF run assms(4)]
  have "length (filter (\<lambda>x. col_name x = label) (frame_cols f)) = 1" by arith
  then obtain c where c: "filter (\<lambda>x. col_name x = label) (frame_cols f) = [c]"
    by (auto simp: length_Suc_conv)
  then have g: "getcol f label = Inr c" by (rule filter_getcol)
  from getcol_Inr [OF g] have cin: "c \<in> set (frame_cols f)" and nm: "col_name c = label"
    by simp_all
  \<comment> \<open>what the columns of the encoded frame look like\<close>
  have inK: "y \<in> set ?K \<Longrightarrow>
      (\<exists>x\<in>set (frame_cols f). col_name x \<notin> set ?cc \<and> y = x) \<or> ?u y \<le> 2" for y
  proof -
    assume "y \<in> set ?K"
    then obtain x where x: "x \<in> set (frame_cols f)" "?keep x"
      "y = (if col_name x \<in> set ?cc then ?code x else x)" by auto
    show ?thesis
    proof (cases "col_name x \<in> set ?cc")
      case True
      with x have "?u x \<le> 2" "y = ?code x" by auto
      then have "?u y \<le> 2"
        by (auto intro!: binary_cells_unique dest: label_codes_binary)
      then show ?thesis ..
    next
      case False
      with x show ?thesis by auto
    qed
  qed
  have inD: "y \<in> set ?D \<Longrightarrow> ?u y \<le> 2" for y
    by (auto dest: dummies_unique)
  have others: ?others
  proof (intro ballI impI)
    fix x
    assume "x \<in> set (frame_cols f)" "col_name x \<notin> set ?cc"
    then have "x \<in> set ?K" by force
    then show "x \<in> set (frame_cols ?enc)" unfolding cols by simp
  qed
  have count: ?count
  proof -
    have "length (filter ?keep (frame_cols f))
            + length (filter (\<lambda>x. col_name x \<in> set ?cc \<and> 2 < ?u x) (frame_cols f))
          = length (frame_cols f)"
      using sum_length_filter_compl [of "\<lambda>x. col_name x \<in> set ?cc \<and> 2 < ?u x" "frame_cols f"]
      by simp
    moreover have "length (frame_cols ?enc) = length (filter ?keep (frame_cols f)) + length ?D"
      unfolding cols by simp
    moreover note length_dummies_by_label [OF assms(2), of str_num "\<lambda>x. 2 < ?u x" "frame_cols f"]
    ultimately show ?thesis by simp
  qed
  have shape: "?shape c"
  proof (cases "2 < ?u c")
    case True
    have gone: "c \<notin> set (frame_cols ?enc)"
    proof
      assume "c \<in> set (frame_cols ?enc)"
      then consider "c \<in> set ?K" | "c \<in> set ?D" unfolding cols by auto
      then show False
      proof cases
        case 1
        from inK [OF 1] True nm assms(4) show False by auto
      next
        case 2
        from inD [OF 2] True show False by simp
      qed
    qed
    from assms(4) obtain cc1 cc2 where split: "?cc = cc1 @ label # cc2"
      by (auto simp: in_set_conv_decomp)
    have "filter (\<lambda>x. col_name x = label \<and> 2 < ?u x) (frame_cols f)
        = filter (\<lambda>x. 2 < ?u x) (filter (\<lambda>x. col_name x = label) (frame_cols f))"
      unfolding filter_filter by (rule filter_cong) auto
    with c True have "?G label = dummies str_num c" by simp
    then have "?D = concat (map ?G cc1) @ dummies str_num c @ concat (map ?G cc2)"
      by (simp add: split)
    then have pos: "frame_cols ?enc
        = (?K @ concat (map ?G cc1)) @ dummies str_num c @ concat (map ?G cc2)"
      unfolding cols by simp
    have rows: "\<forall>i<length (col_cells c).
                   count_list (map (\<lambda>x. col_cells x ! i) (dummies str_num c)) (Num 1)
                     = (if isna (col_cells c ! i) then 0 else 1)"
      by (intro allI impI dummies_row)
    have cells: "\<forall>x\<in>set (dummies str_num c). length (col_cells x) = length (col_cells c)
                         \<and> set (col_cells x) \<subseteq> {Num 0, Num 1}"
      by (intro ballI cells_dummies)
    have names: "set (map col_name (dummies str_num c))
                 = (\<lambda>v. label @ ''_'' @ str_of_cell str_num v) ` (set (col_cells c) - {NA, PyNone})"
      using names_dummies [of str_num c] by (simp add: nm)
    show ?thesis
      apply (subst if_P [OF True])
      apply (rule conjI [OF gone])
      apply (rule exI [of _ "?K @ concat (map ?G cc1)"], rule exI [of _ "dummies str_num c"])
      apply (rule exI [of _ "concat (map ?G cc2)"])
      apply (intro conjI pos length_dummies names cells rows)
      done
  next
    case False
    then have kc: "c \<in> set (filter ?keep (frame_cols f))" using cin by simp
    let ?kf = "filter ?keep (frame_cols f)"
    let ?pre0 = "takeWhile (\<lambda>x. x \<noteq> c) ?kf"
    let ?post0 = "tl (dropWhile (\<lambda>x. x \<noteq> c) ?kf)"
    from kc have dw: "dropWhile (\<lambda>x. x \<noteq> c) ?kf = c # ?post0"
      by (metis (mono_tags, lifting) dropWhile_eq_Nil_conv hd_dropWhile list.collapse)
    have "?kf = ?pre0 @ dropWhile (\<lambda>x. x \<noteq> c) ?kf" by simp
    with dw have kf: "?kf = ?pre0 @ c # ?post0" by simp
    let ?rl = "\<lambda>x. if col_name x \<in> set ?cc then ?code x else x"
    have "?K = map ?rl (?pre0 @ c # ?post0)" using kf by simp
    also have "\<dots> = map ?rl ?pre0 @ [?code c] @ map ?rl ?post0"
      using nm assms(4) by simp
    finally have pos: "frame_cols ?enc
        = map ?rl ?pre0 @ [c\<lparr>col_dtype := Numeric, col_cells := label_codes (col_cells c)\<rparr>]
            @ (map ?rl ?post0 @ ?D)"
      unfolding cols by simp
    have lp: "length (map ?rl ?pre0) = length ?pre0" by simp
    have codes: "set (label_codes (col_cells c)) \<subseteq> {Num 0, Num 1}"
      using False by (intro label_codes_binary) simp
    have "\<not> mixed_types (col_cells c)"
      using encoder_not_mixed [OF run cin] nm assms(4) False by simp
    then have le: "label_encode (col_cells c) = Inr (label_codes (col_cells c))"
      by (simp add: label_encode_def)
    show ?thesis
      apply (subst if_not_P [OF False])
      apply (rule exI [of _ "map ?rl ?pre0"], rule exI [of _ "label_codes (col_cells c)"])
      apply (rule exI [of _ "map ?rl ?post0 @ ?D"])
      apply (intro conjI pos lp le length_label_codes codes)
      done
  qed
  from g shape others count show ?thesis by (intro exI [of _ c] conjI)
qed

text \<open>The two conditions on the categorical column names hold when the names are inferred.\<close>

lemma inferred_categorical_cols:
  assumes "init str_num f ptype dcol None = Inr d"
  shows "distinct (categorical_cols d) \<and> set (categorical_cols d) \<subseteq> set (columns_tolist f)"
proof -
  from assms have "categorical_cols d = set_categorical_columns f (dependent_col d) None"
    by (auto simp: init_def Let_def split: sum.splits)
  then show ?thesis by (auto simp: set_categorical_columns_def)
qed

text \<open>A column with at most two distinct values that mixes strings and numbers stops the
  loop with TypeError.\<close>

lemma encode_column_mixed:
  assumes "getcol g l = Inr c" "length (unique (col_cells c)) \<le> 2" "mixed_types (col_cells c)"
  shows "encode_column str_num g l = Inl TypeError"
  using assms by (simp add: encode_column_def label_encode_def)

lemma init_mixed_binary_column:
  "init (\<lambda>r. [])
     \<lparr>frame_rows = 2,
      frame_cols =
        [\<lparr>col_name = ''c'', col_dtype = Object, col_cells = [Str ''a'', Num 1]\<rparr>,
         \<lparr>col_name = ''y'', col_dtype = Numeric, col_cells = [Num 1, Num 2]\<rparr>]\<rparr>
     None None None = Inl TypeError"
  by (simp add: init_defs)

theorem encoding_shape_witness:
  "\<exists>d c1 c2. init (\<lambda>r. []) survey_frame None None None = Inr d
     \<and> categorical_cols d = [''sex'', ''note'']
     \<and> getcol survey_frame ''note'' = Inr c1
     \<and> col_cells c1 = [Str ''a'', NA, PyNone]
     \<and> length (unique (col_cells c1)) = 3
     \<and> length (unique (dropna (col_cells c1))) = 1
     \<and> c1 \<notin> set (frame_cols (df_encoded d))
     \<and> getcol survey_frame ''sex'' = Inr c2
     \<and> length (unique (col_cells c2)) = 2
     \<and> (\<exists>pre codes post.
           frame_cols (df_encoded d) = pre @ [c2\<lparr>col_dtype := Numeric, col_cells := codes\<rparr>] @ post
           \<and> set codes \<subseteq> {Num 0, Num 1})
     \<and> length (frame_cols survey_frame) = 3
     \<and> length (frame_cols (df_encoded d)) = 3"
proof -
  obtain d where d: "init (\<lambda>r. []) survey_frame None None None = Inr d"
    "categorical_cols d = [''sex'', ''note'']"
    by (simp add: init_defs survey_frame_def)
  have dist: "distinct (categorical_cols d)"
    and sub: "set (categorical_cols d) \<subseteq> set (columns_tolist survey_frame)"
    and m1: "''note'' \<in> set (categorical_cols d)" and m2: "''sex'' \<in> set (categorical_cols d)"
    by (simp_all add: d(2) columns_tolist_def survey_frame_def)
  have g1: "getcol survey_frame ''note''
      = Inr \<lparr>col_name = ''note'', col_dtype = Object, col_cells = [Str ''a'', NA, PyNone]\<rparr>"
    and g2: "getcol survey_frame ''sex''
      = Inr \<lparr>col_name = ''sex'', col_dtype = Object, col_cells = [Str ''F'', Str ''M'', Str ''F'']\<rparr>"
    by (simp_all add: getcol_def survey_frame_def)
  let ?c1 = "\<lparr>col_name = ''note'', col_dtype = Object, col_cells = [Str ''a'', NA, PyNone]\<rparr>"
  let ?c2 = "\<lparr>col_name = ''sex'', col_dtype = Object, col_cells = [Str ''F'', Str ''M'', Str ''F'']\<rparr>"
  have u1: "length (unique (col_cells ?c1)) = 3" "length (unique (dropna (col_cells ?c1))) = 1"
    and u2: "length (unique (col_cells ?c2)) = 2"
    by (simp_all add: unique_def dropna_def)
  have E: "filter (\<lambda>x. col_name x \<in> set (categorical_cols d) \<and> 2 < length (unique (col_cells x)))
             (frame_cols survey_frame) = [?c1]"
    by (simp add: d(2) survey_frame_def unique_def)
  have n: "length (frame_cols survey_frame) = 3" by (simp add: survey_frame_def)
  from encoding_shape [OF d(1) dist sub m1] g1 u1 E n
  have 1: "?c1 \<notin> set (frame_cols (df_encoded d))" "length (frame_cols (df_encoded d)) = 3"
    by auto
  from encoding_shape [OF d(1) dist sub m2] g2 u2
  have 2: "\<exists>pre codes post.
           frame_cols (df_encoded d) = pre @ [?c2\<lparr>col_dtype := Numeric, col_cells := codes\<rparr>] @ post
           \<and> set codes \<subseteq> {Num 0, Num 1}"
    by auto
  show ?thesis
    apply (rule exI [of _ d], rule exI [of _ ?c1], rule exI [of _ ?c2])
    apply (intro conjI d g1 g2 1 2 n)
    apply (simp_all add: unique_def dropna_def)
    done
qed

text \<open>
  C4, as stated, fails: the column \<open>size\<close> has two distinct non-missing values and a
  missing value, hence three distinct values, so it is expanded into two indicator
  columns and the column count changes from 2 to 3.
\<close>

theorem encoding_shape_counterexample:
  "case init (\<lambda>r. []) gap_frame None None None of
     Inl e \<Rightarrow> False
   | Inr d \<Rightarrow>
       categorical_cols d = [''size'']
       \<and> getcol (df d) ''size''
           = Inr \<lparr>col_name = ''size'', col_dtype = Object, col_cells = [Str ''S'', Str ''M'', NA]\<rparr>
       \<and> length (unique (dropna [Str ''S'', Str ''M'', NA])) = 2
       \<and> length (frame_cols (df d)) = 2
       \<and> columns_tolist (df_encoded d) = [''y'', ''size_M'', ''size_S'']"
  by (simp add: init_defs gap_frame_def)

section \<open>Class probabilities\<close>

lemma finite_values_Fin: "finite_values (map (\<lambda>x. Fin (g x)) xs) = map g xs"
  by (induction xs) (auto simp: finite_values_def)

lemma count_list_dropna: "\<not> isna v \<Longrightarrow> count_list (dropna xs) v = count_list xs v"
  by (induction xs) (auto simp: dropna_def)

lemma set_value_counts:
  "set (value_counts xs) = (\<lambda>v. (v, count_list xs v)) ` (set xs - {NA, PyNone})"
  by (simp add: value_counts_def set_unique set_dropna)

lemma keys_value_counts: "set (map fst (value_counts xs)) = set xs - {NA, PyNone}"
  by (force simp: set_value_counts)

lemma distinct_keys_value_counts: "distinct (map fst (value_counts xs))"
proof -
  have "distinct (map fst (map (\<lambda>v. (v, count_list xs v)) (unique (dropna xs))))"
    by (simp add: comp_def distinct_unique)
  then have "inj_on fst (set (map (\<lambda>v. (v, count_list xs v)) (unique (dropna xs))))"
    and "distinct (map (\<lambda>v. (v, count_list xs v)) (unique (dropna xs)))"
    by (simp_all only: distinct_map)
  then show ?thesis
    by (simp add: value_counts_def distinct_map)
qed

lemma sum_value_counts: "(\<Sum>p\<leftarrow>value_counts xs. snd p) = length (dropna xs)"
proof -
  have d: "distinct (value_counts xs)"
    using distinct_keys_value_counts [of xs] by (simp add: distinct_map)
  have "(\<Sum>p\<leftarrow>value_counts xs. snd p) = sum snd (set (value_counts xs))"
    by (rule sum_list_distinct_conv_sum_set [OF d])
  also have "\<dots> = sum snd ((\<lambda>v. (v, count_list xs v)) ` set (dropna xs))"
    by (simp add: set_value_counts set_dropna)
  also have "\<dots> = sum (\<lambda>v. count_list xs v) (set (dropna xs))"
    by (subst sum.reindex) (auto simp: inj_on_def)
  also have "\<dots> = sum (count_list (dropna xs)) (set (dropna xs))"
    by (rule sum.cong) (auto simp: count_list_dropna set_dropna isna_iff)
  also have "\<dots> = length (dropna xs)"
    by (rule sum_count_set) auto
  finally show ?thesis .
qed

lemma series_values_class_frequencies:
  "series_values (class_frequencies f c)
     = map (\<lambda>p. real (snd p) / real (frame_rows f)) (value_counts (col_cells c))"
proof -
  have "map snd (class_frequencies f c)
          = map (\<lambda>p. Fin (real (snd p) / real (frame_rows f))) (value_counts (col_cells c))"
    by (simp add: class_frequencies_def comp_def case_prod_beta)
  then show ?thesis by (simp add: series_values_def finite_values_Fin)
qed

lemma sum_list_ratio:
  "(\<Sum>p\<leftarrow>ps. real (g p) / r) = real (\<Sum>p\<leftarrow>ps. g p) / r"
  by (induction ps) (simp_all add: add_divide_distrib)

lemma sum_class_frequencies:
  "sum_list (series_values (class_frequencies f c))
     = real (length (dropna (col_cells c))) / real (frame_rows f)"
  by (simp add: series_values_class_frequencies sum_list_ratio sum_value_counts)

lemma getcol_wf_length:
  "wf_frame f \<Longrightarrow> getcol f label = Inr c \<Longrightarrow> length (col_cells c) = frame_rows f"
  by (auto simp: wf_frame_def list_all_iff dest: getcol_Inr)

lemma init_fresh:
  "init str_num f ptype dcol cats = Inr d \<Longrightarrow>
     corr_with_dependent d = None \<and> class_probablities d = None"
  by (auto simp: init_def Let_def split: sum.splits)

lemma init_getcol_dependent:
  assumes "init str_num f ptype dcol cats = Inr d" "distinct (columns_tolist f)"
  shows "\<exists>c. getcol f (dependent_col d) = Inr c"
proof -
  from assms(1) have "dependent_col d \<in> set (columns_tolist f)"
    by (auto dest!: init_dependent_col set_dependent_col_in_columns)
  from getcol_distinct [OF assms(2) this] show ?thesis by blast
qed

text \<open>
  C8, amended.  For a descriptor of a well-formed dataset with at least one row, the
  class probabilities are computed on first access and cached; their keys are the
  distinct non-missing values of the dependent column, each mapped to its number of
  occurrences divided by the number of rows; the values sum to the number of rows with
  a non-missing dependent value divided by the number of rows, which is 1 when no
  dependent value is missing.  (Exact arithmetic stands for floating point.)
\<close>

theorem class_probabilities_sum:
  assumes "init str_num f ptype dcol cats = Inr d" "wf_frame f" "0 < frame_rows f"
  shows "\<exists>c probs d'. getcol f (dependent_col d) = Inr c
           \<and> get_class_probablity d = Inr (probs, d')
           \<and> class_probablities d' = Some probs
           \<and> distinct (map fst probs)
           \<and> set (map fst probs) = set (col_cells c) - {NA, PyNone}
           \<and> (\<forall>v\<in>set (col_cells c) - {NA, PyNone}.
                 map_of probs v
                   = Some (Fin (real (count_list (col_cells c) v) / real (frame_rows f))))
           \<and> sum_list (series_values probs)
               = real (length (dropna (col_cells c))) / real (frame_rows f)
           \<and> (NA \<notin> set (col_cells c) \<and> PyNone \<notin> set (col_cells c)
                \<longrightarrow> sum_list (series_values probs) = 1)"
proof -
  from assms(2) have dist: "distinct (columns_tolist f)"
    by (simp add: wf_frame_def columns_tolist_def)
  from init_getcol_dependent [OF assms(1) dist] obtain c where
    c: "getcol f (dependent_col d) = Inr c" by blast
  let ?probs = "class_frequencies f c"
  let ?d' = "d\<lparr>class_probablities := Some ?probs\<rparr>"
  have g: "get_class_probablity d = Inr (?probs, ?d')"
    using c init_fresh [OF assms(1)] init_df [OF assms(1)]
    by (simp add: get_class_probablity_def Let_def)
  have fst_eq: "map fst ?probs = map fst (value_counts (col_cells c))"
    by (simp add: class_frequencies_def comp_def case_prod_beta)
  have keys: "set (map fst ?probs) = set (col_cells c) - {NA, PyNone}"
    by (simp only: fst_eq keys_value_counts)
  have dk: "distinct (map fst ?probs)"
    by (simp only: fst_eq distinct_keys_value_counts)
  have look: "\<forall>v\<in>set (col_cells c) - {NA, PyNone}.
                 map_of ?probs v
                   = Some (Fin (real (count_list (col_cells c) v) / real (frame_rows f)))"
  proof
    fix v
    assume "v \<in> set (col_cells c) - {NA, PyNone}"
    then have "(v, count_list (col_cells c) v) \<in> set (value_counts (col_cells c))"
      by (simp add: set_value_counts)
    then have "(v, Fin (real (count_list (col_cells c) v) / real (frame_rows f))) \<in> set ?probs"
      by (force simp: class_frequencies_def)
    with dk show "map_of ?probs v
                   = Some (Fin (real (count_list (col_cells c) v) / real (frame_rows f)))"
      by (rule map_of_is_SomeI)
  qed
  have total: "NA \<notin> set (col_cells c) \<and> PyNone \<notin> set (col_cells c)
                \<longrightarrow> sum_list (series_values ?probs) = 1"
  proof
    assume "NA \<notin> set (col_cells c) \<and> PyNone \<notin> set (col_cells c)"
    then have "dropna (col_cells c) = col_cells c"
      by (auto simp: dropna_def filter_id_conv isna_iff)
    with getcol_wf_length [OF assms(2) c] assms(3) show "sum_list (series_values ?probs) = 1"
      by (simp add: sum_class_frequencies)
  qed
  show ?thesis
    apply (rule exI [of _ c], rule exI [of _ ?probs], rule exI [of _ ?d'])
    apply (intro conjI c g dk keys look sum_class_frequencies total)
    apply simp
    done
qed

theorem class_probabilities_sum_witness:
  "wf_frame color_frame \<and> 0 < frame_rows color_frame
   \<and> (\<exists>d probs d'. init (\<lambda>r. []) color_frame None None None = Inr d
         \<and> prediction_type d = ''classification''
         \<and> get_class_probablity d = Inr (probs, d')
         \<and> map_of probs (Str ''yes'') = Some (Fin (1 / 2))
         \<and> sum_list (series_values probs) = 1)"
proof -
  have w: "wf_frame color_frame" and r: "0 < frame_rows color_frame"
    by (simp_all add: wf_frame_def color_frame_def)
  obtain d where d: "init (\<lambda>r. []) color_frame None None None = Inr d"
    "dependent_col d = ''y''" "prediction_type d = ''classification''"
    by (simp add: init_defs color_frame_def)
  from class_probabilities_sum [OF d(1) w r] obtain c probs d' where
    p: "getcol color_frame (dependent_col d) = Inr c"
       "get_class_probablity d = Inr (probs, d')"
       "\<forall>v\<in>set (col_cells c) - {NA, PyNone}.
                 map_of probs v
                   = Some (Fin (real (count_list (col_cells c) v) / real (frame_rows color_frame)))"
       "NA \<notin> set (col_cells c) \<and> PyNone \<notin> set (col_cells c)
          \<longrightarrow> sum_list (series_values probs) = 1"
    by blast
  from p(1) d(2) have cc: "col_cells c = [Str ''yes'', Str ''no'', Str ''yes'', Str ''no'']"
    by (auto simp: getcol_def color_frame_def)
  from p(3) cc have "map_of probs (Str ''yes'') = Some (Fin (1 / 2))"
    by (simp add: color_frame_def)
  moreover from p(4) cc have "sum_list (series_values probs) = 1" by simp
  ultimately show ?thesis using w r d p(2) by blast
qed

text \<open>
  C8, as stated, fails: with the dependent column \<open>['yes', NaN]\<close> the descriptor is a
  classification descriptor, the only class has probability 1/2, and the probabilities
  sum to 1/2.
\<close>

theorem class_probabilities_sum_counterexample:
  "case init (\<lambda>r. []) partly_labelled_frame None None None of
     Inl e \<Rightarrow> False
   | Inr d \<Rightarrow>
       prediction_type d = ''classification''
       \<and> (case get_class_probablity d of
            Inl e \<Rightarrow> False
          | Inr (probs, d') \<Rightarrow>
              probs = [(Str ''yes'', Fin (1 / 2))]
              \<and> sum_list (series_values probs) = 1 / 2
              \<and> sum_list (series_values probs) \<noteq> 1)"
  by (simp add: init_defs partly_labelled_frame_def get_class_probablity_def
      class_frequencies_def value_counts_def series_values_def finite_values_def)

section \<open>Correlation accessors\<close>

lemmas corr_accessors_def = corr_with_dependent_abs_max_def corr_with_dependent_abs_min_def
  corr_with_dependent_abs_mean_def corr_with_dependent_abs_median_def
  corr_with_dependent_abs_std_def corr_with_dependent_abs_25p_def
  corr_with_dependent_abs_75p_def

lemmas class_prob_accessors_def = class_prob_min_def class_prob_max_def class_prob_std_def
  class_prob_mean_def class_prob_median_def

lemmas symbols_accessors_def = symbols_mean_def symbols_std_def symbols_min_def
  symbols_max_def symbols_sum_def

text \<open>The guards of the accessors: the parts of C7 that hold for every descriptor, and
  the empty categorical set while the dictionary of the class is still empty.\<close>

lemma corr_accessor_classification:
  "prediction_type d = ''classification'' \<Longrightarrow> corr_accessor reduce d = Inr (FloatVal NaN, d)"
  by (simp add: corr_accessor_def)

lemma class_prob_accessor_regression:
  "prediction_type d = ''regression'' \<Longrightarrow> class_prob_accessor reduce d = Inr (FloatVal NaN, d)"
  by (simp add: class_prob_accessor_def)

lemma symbols_accessor_empty:
  "categorical_cols d = [] \<Longrightarrow> symbols_accessor reduce [] d = (Inr (FloatVal NaN), [])"
  by (simp add: symbols_accessor_def get_symbols_per_category_def)

text \<open>Once the correlations are stored, the cache test raises.\<close>

lemma get_corr_cached_raises:
  "prediction_type d = ''regression'' \<Longrightarrow> corr_with_dependent d = Some s \<Longrightarrow>
     get_corr_with_dependent d = Inl ValueError"
  by (simp add: get_corr_with_dependent_def ne_None_def truth_value_def)

lemma corr_accessor_stores:
  assumes "prediction_type d = ''regression''" "corr_accessor reduce d = Inr (v, d')"
  shows "prediction_type d' = ''regression'' \<and> (\<exists>s. corr_with_dependent d' = Some s)"
proof (cases "corr_with_dependent d")
  case None
  with assms show ?thesis
    by (auto simp: corr_accessor_def get_corr_with_dependent_def ne_None_def truth_value_def
        Let_def split: sum.splits option.splits)
next
  case (Some s)
  with assms show ?thesis
    by (simp add: corr_accessor_def get_corr_cached_raises)
qed

lemma corr_accessor_second_call:
  assumes "prediction_type d = ''regression''" "corr_accessor reduce d = Inr (v, d')"
  shows "corr_accessor reduce' d' = Inl ValueError"
proof -
  from corr_accessor_stores [OF assms] obtain s where
    "prediction_type d' = ''regression''" "corr_with_dependent d' = Some s" by blast
  then show ?thesis by (simp add: corr_accessor_def get_corr_cached_raises)
qed

text \<open>
  C1 on the regression dataset with columns \<open>a\<close>, \<open>b\<close>, \<open>target\<close>: the first call of
  \<open>corr_with_dependent_abs_max\<close> returns a value and stores the correlations; after
  it, every correlation accessor raises ValueError, because the cache test
  \<open>self.corr_with_dependent != None\<close> now takes the truth value of a Series.
\<close>

theorem corr_second_call_raises:
  "\<exists>d v d'. init (\<lambda>r. []) target_frame None None None = Inr d
     \<and> prediction_type d = ''regression''
     \<and> corr_with_dependent_abs_max d = Inr (v, d')
     \<and> corr_with_dependent_abs_max d' = Inl ValueError
     \<and> corr_with_dependent_abs_min d' = Inl ValueError
     \<and> corr_with_dependent_abs_mean d' = Inl ValueError
     \<and> corr_with_dependent_abs_median d' = Inl ValueError
     \<and> corr_with_dependent_abs_std d' = Inl ValueError
     \<and> corr_with_dependent_abs_25p d' = Inl ValueError
     \<and> corr_with_dependent_abs_75p d' = Inl ValueError"
proof -
  obtain d where d: "init (\<lambda>r. []) target_frame None None None = Inr d"
    "prediction_type d = ''regression''" "corr_with_dependent d = None"
    "dependent_col d = ''target''" "df_encoded d = target_frame"
    by (simp add: init_defs target_frame_def)
  have "\<exists>s. corr_column (df_encoded d) (dependent_col d) = Inr s"
    by (simp add: d corr_column_def getcol_def get_numeric_data_def target_frame_def)
  then obtain v d' where f: "corr_with_dependent_abs_max d = Inr (v, d')"
    using d(2,3)
    by (auto simp: corr_with_dependent_abs_max_def corr_accessor_def get_corr_with_dependent_def
        ne_None_def truth_value_def Let_def)
  then have "corr_accessor stat_max d = Inr (v, d')"
    by (simp add: corr_with_dependent_abs_max_def)
  from corr_accessor_second_call [OF d(2) this] have "\<And>r. corr_accessor r d' = Inl ValueError" .
  with d f show ?thesis by (auto simp: corr_accessors_def)
qed


section \<open>A prediction type outside the two known ones\<close>

lemma class_prob_accessor_fresh:
  assumes "prediction_type d \<noteq> ''regression''" "class_probablities d = None"
    "getcol (df d) (dependent_col d) = Inr c"
  shows "class_prob_accessor reduce d
           = Inr (FloatVal (reduce (series_values (class_frequencies (df d) c))),
                  d\<lparr>class_probablities := Some (class_frequencies (df d) c)\<rparr>)"
  using assms by (simp add: class_prob_accessor_def get_class_probablity_def Let_def)

lemma class_prob_accessor_fresh_error:
  assumes "prediction_type d \<noteq> ''regression''" "class_probablities d = None"
    "getcol (df d) (dependent_col d) = Inl e"
  shows "class_prob_accessor reduce d = Inl e"
  using assms by (simp add: class_prob_accessor_def get_class_probablity_def)

lemma corr_accessor_unknown_type:
  assumes "prediction_type d \<noteq> ''regression''" "prediction_type d \<noteq> ''classification''"
  shows "corr_accessor reduce d = Inl AttributeError"
  using assms by (simp add: corr_accessor_def get_corr_with_dependent_def)

lemma length_series_values:
  "length (series_values (class_frequencies f c)) = length (unique (dropna (col_cells c)))"
  by (simp add: series_values_class_frequencies value_counts_def)

lemma unique_empty: "unique xs = [] \<longleftrightarrow> xs = []"
  by (simp add: unique_def)

text \<open>When the reductions give not-a-number.\<close>

lemma stat_min_NaN: "stat_min xs = NaN \<longleftrightarrow> xs = []"
  by (cases xs) (simp_all add: stat_min_def)

lemma stat_max_NaN: "stat_max xs = NaN \<longleftrightarrow> xs = []"
  by (cases xs) (simp_all add: stat_max_def)

lemma stat_mean_NaN: "stat_mean xs = NaN \<longleftrightarrow> xs = []"
  by (simp add: stat_mean_def)

lemma stat_median_NaN: "stat_median xs = NaN \<longleftrightarrow> xs = []"
  by (simp only: stat_median_def Let_def split: if_splits) simp

lemma stat_std_NaN: "stat_std xs = NaN \<longleftrightarrow> length xs < 2"
  by (simp only: stat_std_def Let_def split: if_splits) simp

lemma series_values_empty:
  "series_values (class_frequencies f c) = [] \<longleftrightarrow> dropna (col_cells c) = []"
  using length_series_values [of f c] unique_empty [of "dropna (col_cells c)"]
  by (metis length_0_conv)

text \<open>
  C10, amended.  For a descriptor constructed with an explicit prediction type that is
  neither \<open>'regression'\<close> nor \<open>'classification'\<close>: every \<open>class_prob_*\<close> accessor takes
  its compute branch; when the dependent label selects one column it computes the class
  probabilities, stores them and returns its reduction of them, which is not-a-number
  for min, max, mean and median exactly when the dependent column has no non-missing
  value, and for std exactly when it has fewer than two distinct non-missing values;
  when the label selects several columns the accessor raises the error of the lookup.
  Every \<open>corr_with_dependent_abs_*\<close> accessor raises AttributeError, and \<open>n_classes\<close>
  returns the not-a-number sentinel.
\<close>

theorem unknown_prediction_type_asymmetry:
  assumes "init str_num f (Some p) dcol cats = Inr d"
    "p \<noteq> ''regression''" "p \<noteq> ''classification''"
  shows "(case getcol f (dependent_col d) of
            Inl e \<Rightarrow>
              class_prob_min d = Inl e \<and> class_prob_max d = Inl e \<and> class_prob_std d = Inl e
              \<and> class_prob_mean d = Inl e \<and> class_prob_median d = Inl e
          | Inr c \<Rightarrow>
              (\<exists>probs d'. probs = class_frequencies f c
                 \<and> d' = d\<lparr>class_probablities := Some probs\<rparr>
                 \<and> class_prob_min d = Inr (FloatVal (stat_min (series_values probs)), d')
                 \<and> class_prob_max d = Inr (FloatVal (stat_max (series_values probs)), d')
                 \<and> class_prob_std d = Inr (FloatVal (stat_std (series_values probs)), d')
                 \<and> class_prob_mean d = Inr (FloatVal (stat_mean (series_values probs)), d')
                 \<and> class_prob_median d = Inr (FloatVal (stat_median (series_values probs)), d')
                 \<and> (stat_min (series_values probs) = NaN \<longleftrightarrow> dropna (col_cells c) = [])
                 \<and> (stat_max (series_values probs) = NaN \<longleftrightarrow> dropna (col_cells c) = [])
                 \<and> (stat_mean (series_values probs) = NaN \<longleftrightarrow> dropna (col_cells c) = [])
                 \<and> (stat_median (series_values probs) = NaN \<longleftrightarrow> dropna (col_cells c) = [])
                 \<and> (stat_std (series_values probs) = NaN
                      \<longleftrightarrow> length (unique (dropna (col_cells c))) < 2)))
      \<and> corr_with_dependent_abs_max d = Inl AttributeError
      \<and> corr_with_dependent_abs_min d = Inl AttributeError
      \<and> corr_with_dependent_abs_mean d = Inl AttributeError
      \<and> corr_with_dependent_abs_median d = Inl AttributeError
      \<and> corr_with_dependent_abs_std d = Inl AttributeError
      \<and> corr_with_dependent_abs_25p d = Inl AttributeError
      \<and> corr_with_dependent_abs_75p d = Inl AttributeError
      \<and> n_classes d = Inr (FloatVal NaN)"
proof -
  from assms(1) have pt: "prediction_type d = p"
    by (simp add: init_prediction_type set_prediction_type_def)
  with assms(2,3) have nr: "prediction_type d \<noteq> ''regression''"
    and nc: "prediction_type d \<noteq> ''classification''" by simp_all
  have fresh: "class_probablities d = None" using init_fresh [OF assms(1)] by simp
  have dff: "df d = f" by (rule init_df [OF assms(1)])
  have co: "corr_accessor r d = Inl AttributeError" for r
    by (rule corr_accessor_unknown_type [OF nr nc])
  have ncl: "n_classes d = Inr (FloatVal NaN)" using nc by (simp add: n_classes_def)
  have cp: "case getcol f (dependent_col d) of
            Inl e \<Rightarrow>
              class_prob_min d = Inl e \<and> class_prob_max d = Inl e \<and> class_prob_std d = Inl e
              \<and> class_prob_mean d = Inl e \<and> class_prob_median d = Inl e
          | Inr c \<Rightarrow>
              (\<exists>probs d'. probs = class_frequencies f c
                 \<and> d' = d\<lparr>class_probablities := Some probs\<rparr>
                 \<and> class_prob_min d = Inr (FloatVal (stat_min (series_values probs)), d')
                 \<and> class_prob_max d = Inr (FloatVal (stat_max (series_values probs)), d')
                 \<and> class_prob_std d = Inr (FloatVal (stat_std (series_values probs)), d')
                 \<and> class_prob_mean d = Inr (FloatVal (stat_mean (series_values probs)), d')
                 \<and> class_prob_median d = Inr (FloatVal (stat_median (series_values probs)), d')
                 \<and> (stat_min (series_values probs) = NaN \<longleftrightarrow> dropna (col_cells c) = [])
                 \<and> (stat_max (series_values probs) = NaN \<longleftrightarrow> dropna (col_cells c) = [])
                 \<and> (stat_mean (series_values probs) = NaN \<longleftrightarrow> dropna (col_cells c) = [])
                 \<and> (stat_median (series_values probs) = NaN \<longleftrightarrow> dropna (col_cells c) = [])
                 \<and> (stat_std (series_values probs) = NaN
                      \<longleftrightarrow> length (unique (dropna (col_cells c))) < 2))"
  proof (cases "getcol f (dependent_col d)")
    case (Inl e)
    then have "getcol (df d) (dependent_col d) = Inl e" by (simp add: dff)
    from class_prob_accessor_fresh_error [OF nr fresh this]
    have "class_prob_accessor r d = Inl e" for r .
    with Inl show ?thesis by (simp add: class_prob_accessors_def)
  next
    case (Inr c)
    then have "getcol (df d) (dependent_col d) = Inr c" by (simp add: dff)
    from class_prob_accessor_fresh [OF nr fresh this]
    have acc: "class_prob_accessor r d
           = Inr (FloatVal (r (series_values (class_frequencies f c))),
                  d\<lparr>class_probablities := Some (class_frequencies f c)\<rparr>)" for r
      by (simp add: dff)
    have "\<exists>probs d'. probs = class_frequencies f c
                 \<and> d' = d\<lparr>class_probablities := Some probs\<rparr>
                 \<and> class_prob_min d = Inr (FloatVal (stat_min (series_values probs)), d')
                 \<and> class_prob_max d = Inr (FloatVal (stat_max (series_values probs)), d')
                 \<and> class_prob_std d = Inr (FloatVal (stat_std (series_values probs)), d')
                 \<and> class_prob_mean d = Inr (FloatVal (stat_mean (series_values probs)), d')
                 \<and> class_prob_median d = Inr (FloatVal (stat_median (series_values probs)), d')
                 \<and> (stat_min (series_values probs) = NaN \<longleftrightarrow> dropna (col_cells c) = [])
                 \<and> (stat_max (series_values probs) = NaN \<longleftrightarrow> dropna (col_cells c) = [])
                 \<and> (stat_mean (series_values probs) = NaN \<longleftrightarrow> dropna (col_cells c) = [])
                 \<and> (stat_median (series_values probs) = NaN \<longleftrightarrow> dropna (col_cells c) = [])
                 \<and> (stat_std (series_values probs) = NaN
                      \<longleftrightarrow> length (unique (dropna (col_cells c))) < 2)"
      apply (rule exI [of _ "class_frequencies f c"])
      apply (rule exI [of _ "d\<lparr>class_probablities := Some (class_frequencies f c)\<rparr>"])
      apply (unfold class_prob_accessors_def)
      apply (intro conjI refl acc)
          apply (simp_all only: stat_min_NaN stat_max_NaN stat_mean_NaN stat_median_NaN
          stat_std_NaN series_values_empty length_series_values)
      done
    with Inr show ?thesis by simp
  qed
  show ?thesis
    apply (unfold corr_accessors_def)
    apply (intro conjI cp co ncl)
    done
qed

theorem unknown_prediction_type_asymmetry_witness:
  "\<exists>d d' r. init (\<lambda>r. []) color_frame (Some ''ranking'') None None = Inr d
         \<and> class_prob_min d = Inr (FloatVal (Fin (1 / 2)), d')
         \<and> class_prob_std d = Inr (FloatVal (Fin r), d')
         \<and> corr_with_dependent_abs_max d = Inl AttributeError
         \<and> n_classes d = Inr (FloatVal NaN)"
proof -
  obtain d where d: "init (\<lambda>r. []) color_frame (Some ''ranking'') None None = Inr d"
    "dependent_col d = ''y''"
    by (simp add: init_defs color_frame_def)
  have ne: "''ranking'' \<noteq> ''regression''" "''ranking'' \<noteq> ''classification''" by simp_all
  let ?c = "\<lparr>col_name = ''y'', col_dtype = Object,
              col_cells = [Str ''yes'', Str ''no'', Str ''yes'', Str ''no'']\<rparr>"
  have g: "getcol color_frame (dependent_col d) = Inr ?c"
    by (simp add: d(2) getcol_def color_frame_def)
  have u: "length (unique (dropna (col_cells ?c))) = 2" by (simp add: unique_def dropna_def)
  from unknown_prediction_type_asymmetry [OF d(1) ne] g u obtain probs d' where
    r: "probs = class_frequencies color_frame ?c"
       "class_prob_min d = Inr (FloatVal (stat_min (series_values probs)), d')"
       "class_prob_std d = Inr (FloatVal (stat_std (series_values probs)), d')"
       "stat_std (series_values probs) \<noteq> NaN"
       "corr_with_dependent_abs_max d = Inl AttributeError"
       "n_classes d = Inr (FloatVal NaN)"
    by auto
  from r(4) obtain s where s: "stat_std (series_values probs) = Fin s"
    by (cases "stat_std (series_values probs)") auto
  have "stat_min (series_values probs) = Fin (1 / 2)"
    by (simp add: r(1) series_values_class_frequencies value_counts_def unique_def dropna_def
        stat_min_def color_frame_def)
  with r s d show ?thesis by auto
qed

text \<open>
  C10, as stated, fails: with the prediction type \<open>'ranking'\<close> and a dependent column
  that holds a single class, \<open>class_prob_std\<close> takes its compute branch and returns
  the not-a-number value, the sample standard deviation of one probability.
\<close>

theorem unknown_prediction_type_asymmetry_counterexample:
  "case init (\<lambda>r. []) single_class_frame (Some ''ranking'') None None of
     Inl e \<Rightarrow> False
   | Inr d \<Rightarrow>
       prediction_type d = ''ranking''
       \<and> (case class_prob_std d of
            Inl e \<Rightarrow> False
          | Inr (v, d') \<Rightarrow>
              v = FloatVal NaN \<and> class_probablities d' = Some [(Str ''yes'', Fin 1)])"
  by (simp add: init_defs single_class_frame_def class_prob_std_def class_prob_accessor_def
      get_class_probablity_def class_frequencies_def value_counts_def series_values_def
      finite_values_def stat_std_def)

section \<open>Symbol counts\<close>

lemmas symbols_eval = symbols_accessors_def symbols_accessor_def get_symbols_per_category_def
  stat_mean_def

text \<open>
  C7 where it fails: a descriptor without categorical columns, queried after the
  symbol accessors of a descriptor with a three-symbol column, finds the dictionary of
  the class filled and returns 3 from \<open>symbols_mean\<close>, \<open>symbols_min\<close>, \<open>symbols_max\<close>
  and \<open>symbols_sum\<close> instead of the not-a-number sentinel.
\<close>

theorem symbols_of_empty_categorical_set:
  "\<exists>d1 d2 S. init (\<lambda>r. []) color_frame None None None = Inr d1
     \<and> init (\<lambda>r. []) target_frame None None None = Inr d2
     \<and> categorical_cols d2 = []
     \<and> symbols_mean [] d1 = (Inr (FloatVal (Fin 3)), S)
     \<and> symbols_mean S d2 = (Inr (FloatVal (Fin 3)), S)
     \<and> symbols_min S d2 = (Inr (IntVal 3), S)
     \<and> symbols_max S d2 = (Inr (IntVal 3), S)
     \<and> symbols_sum S d2 = (Inr (IntVal 3), S)"
proof -
  obtain d1 where d1: "init (\<lambda>r. []) color_frame None None None = Inr d1"
    "df d1 = color_frame" "categorical_cols d1 = [''color'']"
    by (simp add: init_defs color_frame_def)
  obtain d2 where d2: "init (\<lambda>r. []) target_frame None None None = Inr d2"
    "categorical_cols d2 = []"
    by (simp add: init_defs target_frame_def)
  have 1: "symbols_mean [] d1 = (Inr (FloatVal (Fin 3)), [(''color'', 3)])"
    by (simp add: symbols_eval d1 getcol_def unique_def dropna_def color_frame_def)
  have 2: "symbols_mean [(''color'', 3)] d2 = (Inr (FloatVal (Fin 3)), [(''color'', 3)])"
    "symbols_min [(''color'', 3)] d2 = (Inr (IntVal 3), [(''color'', 3)])"
    "symbols_max [(''color'', 3)] d2 = (Inr (IntVal 3), [(''color'', 3)])"
    "symbols_sum [(''color'', 3)] d2 = (Inr (IntVal 3), [(''color'', 3)])"
    by (simp_all add: symbols_eval)
  from d1(1) d2 1 2 show ?thesis by blast
qed

text \<open>
  C3 on two independently constructed descriptors: queried first, the second one
  reports its own column \<open>size\<close> with 2 symbols; queried after \<open>symbols_sum\<close> of the
  first one, it gets the first one's symbol counts and reports their sum, 3.
\<close>

theorem symbol_counts_shared_between_instances:
  "\<exists>d1 d2 S. init (\<lambda>r. []) color_frame None None None = Inr d1
     \<and> init (\<lambda>r. []) gap_frame None None None = Inr d2
     \<and> get_symbols_per_category [] d2 = (Inr [(''size'', 2)], [(''size'', 2)])
     \<and> symbols_sum [] d2 = (Inr (IntVal 2), [(''size'', 2)])
     \<and> symbols_sum [] d1 = (Inr (IntVal 3), S)
     \<and> get_symbols_per_category S d2 = (Inr [(''color'', 3)], S)
     \<and> symbols_sum S d2 = (Inr (IntVal 3), S)"
proof -
  obtain d1 where d1: "init (\<lambda>r. []) color_frame None None None = Inr d1"
    "df d1 = color_frame" "categorical_cols d1 = [''color'']"
    by (simp add: init_defs color_frame_def)
  obtain d2 where d2: "init (\<lambda>r. []) gap_frame None None None = Inr d2"
    "df d2 = gap_frame" "categorical_cols d2 = [''size'']"
    by (simp add: init_defs gap_frame_def)
  have 1: "get_symbols_per_category [] d2 = (Inr [(''size'', 2)], [(''size'', 2)])"
    "symbols_sum [] d2 = (Inr (IntVal 2), [(''size'', 2)])"
    by (simp_all add: symbols_eval d2 getcol_def unique_def dropna_def gap_frame_def)
  have 2: "symbols_sum [] d1 = (Inr (IntVal 3), [(''color'', 3)])"
    by (simp add: symbols_eval d1 getcol_def unique_def dropna_def color_frame_def)
  have 3: "get_symbols_per_category [(''color'', 3)] d2 = (Inr [(''color'', 3)], [(''color'', 3)])"
    "symbols_sum [(''color'', 3)] d2 = (Inr (IntVal 3), [(''color'', 3)])"
    by (simp_all add: symbols_eval)
  from d1(1) d2(1) 1 2 3 show ?thesis by blast
qed

end
